theory Spec2Isabelle
  imports Complex_Main "HOL-Library.Multiset"
begin

section \<open>Shared data\<close>

text \<open>
  JavaScript numbers are modelled as exact reals: the properties below are arithmetic
  identities of the scripts, not statements about IEEE rounding.
  The trade side is the string union \<^verbatim>\<open>'BUY' | 'SELL'\<close> of the SDK.
\<close>

datatype Side = BUY | SELL

text \<open>Decimal digits, and the number a string of digits denotes.\<close>

definition isDigit :: "char \<Rightarrow> bool" where
  "isDigit ch = (48 \<le> (of_char ch :: nat) \<and> (of_char ch :: nat) \<le> 57)"

definition fromDecimal :: "string \<Rightarrow> nat" where
  "fromDecimal s = foldl (\<lambda>acc ch. 10 * acc + ((of_char ch :: nat) - 48)) 0 s"

section \<open>scripts/smart-money/crypto-copy-trade.ts: slippage price\<close>

text \<open>The configuration constant \<^verbatim>\<open>MAX_SLIPPAGE = 0.05\<close>.\<close>

definition MAX_SLIPPAGE :: real where
  "MAX_SLIPPAGE = 5 / 100"

text \<open>
  \<^verbatim>\<open>onTrade\<close>, lines 148-150: the comparison is \<^verbatim>\<open>trade.side === 'BUY'\<close>, every other
  side takes the second branch.
\<close>

definition slippagePrice :: "Side \<Rightarrow> real \<Rightarrow> real" where
  "slippagePrice side_t price_t =
     (if side_t = BUY then price_t * (1 + MAX_SLIPPAGE) else price_t * (1 - MAX_SLIPPAGE))"

text \<open>\<^verbatim>\<open>shutdown\<close>, line 254: the trade log recomputes the same price per logged trade.\<close>

definition slipPrice :: "Side \<Rightarrow> real \<Rightarrow> real" where
  "slipPrice side_t price_t =
     (if side_t = BUY then price_t * (1 + MAX_SLIPPAGE) else price_t * (1 - MAX_SLIPPAGE))"

section \<open>scripts/test-relayer-api.ts (wallet deep dive): FIFO lots\<close>

text \<open>\<^verbatim>\<open>interface SimpleLot { size; cost }\<close> and \<^verbatim>\<open>interface Lot\<close>, which adds the flag.\<close>

record SimpleLot =
  size_lot :: real
  cost :: real

record Lot = SimpleLot +
  fromSub1Buy :: bool

definition MIN_VALUE_USD :: real where
  "MIN_VALUE_USD = 1"

text \<open>
  The inner \<^verbatim>\<open>while (toSell > 0 && lots.length > 0)\<close> loop of the total-ROI pass
  (lines 440-450). The state is the amount still to sell, the lot queue of the asset and
  the accumulator \<^verbatim>\<open>realizedProceedsAll\<close>. The lot is updated in the order of the
  source: the ratio is computed from the old size, then size and cost are reduced.
\<close>

function sellAll :: "real \<Rightarrow> real \<Rightarrow> SimpleLot list \<Rightarrow> real \<Rightarrow> SimpleLot list \<times> real" where
  "sellAll toSell price_t lots realizedProceedsAll =
     (if toSell > 0 \<and> lots \<noteq> [] then
        (let lot = hd lots;
             take = min (size_lot lot) toSell;
             costRatio = take / size_lot lot;
             lot' = lot\<lparr>size_lot := size_lot lot - take,
                        cost := cost lot - cost lot * costRatio\<rparr>;
             realizedProceedsAll' = realizedProceedsAll + take * price_t;
             toSell' = toSell - take
         in if size_lot lot' \<le> 0
            then sellAll toSell' price_t (tl lots) realizedProceedsAll'
            else sellAll toSell' price_t (lot' # tl lots) realizedProceedsAll')
      else (lots, realizedProceedsAll))"
  by pat_completeness auto
termination
proof (relation "measure (\<lambda>(toSell, price_t, lots, acc).
                   2 * length lots + (if toSell > 0 then 1 else 0))", goal_cases)
  case 1
  show ?case by simp
next
  case (2 toSell price_t lots acc lot take costRatio lot' acc' toSell')
  then show ?case by (cases lots) auto
next
  case (3 toSell price_t lots acc lot take costRatio lot' acc' toSell')
  then have "size_lot lot - take > 0" by simp
  with 3 have "take = toSell" by (auto simp: min_def split: if_splits)
  with 3 show ?case by simp
qed

declare sellAll.simps [simp del]

text \<open>
  The same loop in the sub-\$1 pass (lines 326-341), which accumulates cost and proceeds
  only for lots flagged \<^verbatim>\<open>fromSub1Buy\<close>. State: \<^verbatim>\<open>realizedSub1Cost\<close>,
  \<^verbatim>\<open>realizedSub1Proceeds\<close>. A lot of size zero makes the ratio \<open>0 / 0\<close>, which is
  \<^verbatim>\<open>NaN\<close> in JavaScript and \<open>0\<close> in HOL: in both loops such a lot leaves the queue at
  once, so the queue and the proceeds agree, but the cost accumulated here is stated
  below for lots of non-zero size only.
\<close>

function sellSub1 :: "real \<Rightarrow> real \<Rightarrow> Lot list \<Rightarrow> real \<times> real \<Rightarrow> Lot list \<times> real \<times> real" where
  "sellSub1 toSell price_t lots acc =
     (if toSell > 0 \<and> lots \<noteq> [] then
        (let lot = hd lots;
             take = min (size_lot lot) toSell;
             costRatio = take / size_lot lot;
             costTaken = cost lot * costRatio;
             proceedsTaken = take * price_t;
             acc' = (if fromSub1Buy lot
                     then (fst acc + costTaken, snd acc + proceedsTaken) else acc);
             toSell' = toSell - take;
             lot' = lot\<lparr>size_lot := size_lot lot - take, cost := cost lot - costTaken\<rparr>
         in if size_lot lot' \<le> 0
            then sellSub1 toSell' price_t (tl lots) acc'
            else sellSub1 toSell' price_t (lot' # tl lots) acc')
      else (lots, acc))"
  by pat_completeness auto
termination
proof (relation "measure (\<lambda>(toSell, price_t, lots, acc).
                   2 * length lots + (if toSell > 0 then 1 else 0))", goal_cases)
  case 1
  show ?case by simp
next
  case (2 toSell price_t lots acc lot take costRatio costTaken proceedsTaken acc' toSell' lot')
  then show ?case by (cases lots) auto
next
  case (3 toSell price_t lots acc lot take costRatio costTaken proceedsTaken acc' toSell' lot')
  then have "size_lot lot - take > 0" by simp
  with 3 have "take = toSell" by (auto simp: min_def split: if_splits)
  with 3 show ?case by simp
qed

declare sellSub1.simps [simp del]

text \<open>
  The trades of the data API as the deep dive reads them: \<^verbatim>\<open>asset\<close> and \<^verbatim>\<open>market\<close>
  may be absent, and \<^verbatim>\<open>t.asset || t.market\<close> also skips an empty string.
\<close>

record Trade =
  asset :: "string option"
  market :: "string option"
  side :: Side
  size_tr :: real
  price :: real

definition truthy :: "string option \<Rightarrow> bool" where
  "truthy s = (case s of None \<Rightarrow> False | Some a \<Rightarrow> a \<noteq> [])"

definition assetKey :: "Trade \<Rightarrow> string option" where
  "assetKey t = (if truthy (asset t) then asset t
                 else if truthy (market t) then market t else None)"

text \<open>The total-ROI pass over the sorted trades (lines 421-452).\<close>

record RoiAll =
  lotsAllByAsset :: "string \<rightharpoonup> SimpleLot list"
  totalCostAll :: real
  realizedProceedsAll :: real

definition stepAll :: "RoiAll \<Rightarrow> Trade \<Rightarrow> RoiAll" where
  "stepAll st t =
     (case assetKey t of
        None \<Rightarrow> st
      | Some a \<Rightarrow>
          (let lots = (case lotsAllByAsset st a of None \<Rightarrow> [] | Some ls \<Rightarrow> ls)
           in if side t = BUY then
                (let c = size_tr t * price t
                 in st\<lparr>lotsAllByAsset :=
                          (lotsAllByAsset st)(a \<mapsto> lots @ [\<lparr>size_lot = size_tr t, cost = c\<rparr>]),
                        totalCostAll := totalCostAll st + c\<rparr>)
              else
                (let r = sellAll (size_tr t) (price t) lots (realizedProceedsAll st)
                 in st\<lparr>lotsAllByAsset := (lotsAllByAsset st)(a \<mapsto> fst r),
                        realizedProceedsAll := snd r\<rparr>)))"

definition roiAllInit :: RoiAll where
  "roiAllInit = \<lparr>lotsAllByAsset = Map.empty, totalCostAll = 0, realizedProceedsAll = 0\<rparr>"

definition runAll :: "Trade list \<Rightarrow> RoiAll" where
  "runAll ts = foldl stepAll roiAllInit ts"

text \<open>The sub-\$1 pass over the sorted trades (lines 305-343).\<close>

record RoiSub1 =
  lotsByAsset :: "string \<rightharpoonup> Lot list"
  totalSub1Cost :: real
  realizedSub1Cost :: real
  realizedSub1Proceeds :: real

definition stepSub1 :: "RoiSub1 \<Rightarrow> Trade \<Rightarrow> RoiSub1" where
  "stepSub1 st t =
     (case assetKey t of
        None \<Rightarrow> st
      | Some a \<Rightarrow>
          (let lots = (case lotsByAsset st a of None \<Rightarrow> [] | Some ls \<Rightarrow> ls)
           in if side t = BUY then
                (let c = size_tr t * price t;
                     fromSub1 = (c < MIN_VALUE_USD)
                 in st\<lparr>lotsByAsset :=
                          (lotsByAsset st)(a \<mapsto> lots @
                             [\<lparr>size_lot = size_tr t, cost = c, fromSub1Buy = fromSub1\<rparr>]),
                        totalSub1Cost := (if fromSub1 then totalSub1Cost st + c
                                          else totalSub1Cost st)\<rparr>)
              else
                (let r = sellSub1 (size_tr t) (price t) lots
                           (realizedSub1Cost st, realizedSub1Proceeds st)
                 in st\<lparr>lotsByAsset := (lotsByAsset st)(a \<mapsto> fst r),
                        realizedSub1Cost := fst (snd r),
                        realizedSub1Proceeds := snd (snd r)\<rparr>)))"

definition roiSub1Init :: RoiSub1 where
  "roiSub1Init = \<lparr>lotsByAsset = Map.empty, totalSub1Cost = 0,
                   realizedSub1Cost = 0, realizedSub1Proceeds = 0\<rparr>"

definition runSub1 :: "Trade list \<Rightarrow> RoiSub1" where
  "runSub1 ts = foldl stepSub1 roiSub1Init ts"

text \<open>
  The FIFO rule in the words of the specification, for comparison with the two loops:
  lots are consumed from the front; from each lot \<open>take = min lot.size remaining\<close>, the
  cost portion is \<open>cost * (take / lot.size)\<close>, proceeds grow by \<open>take * price\<close>, the cost
  removed grows by the cost portion, and a lot whose size has reached zero is dropped.
  The result is the remaining queue, the proceeds and the cost removed.
\<close>

fun fifoSellSpec ::
  "real \<Rightarrow> real \<Rightarrow> 'a SimpleLot_scheme list \<Rightarrow> 'a SimpleLot_scheme list \<times> real \<times> real" where
  "fifoSellSpec remaining price_t [] = ([], 0, 0)"
| "fifoSellSpec remaining price_t (lot # lots) =
     (if remaining \<le> 0 then (lot # lots, 0, 0)
      else
        (let take = min (size_lot lot) remaining;
             costPortion = cost lot * (take / size_lot lot);
             lot' = lot\<lparr>size_lot := size_lot lot - take, cost := cost lot - costPortion\<rparr>
         in if size_lot lot' \<le> 0 then
              (let r = fifoSellSpec (remaining - take) price_t lots
               in (fst r, take * price_t + fst (snd r), costPortion + snd (snd r)))
            else (lot' # lots, take * price_t, costPortion)))"

definition totalCost :: "'a SimpleLot_scheme list \<Rightarrow> real" where
  "totalCost lots = sum_list (map cost lots)"

definition totalShares :: "'a SimpleLot_scheme list \<Rightarrow> real" where
  "totalShares lots = sum_list (map size_lot lots)"

text \<open>
  The lots a sell consumes under that rule, each with the amount taken from it, and the
  sums the specification forms over them: proceeds \<open>sum (take * price)\<close> and cost removed
  \<open>sum (cost * (take / lot.size))\<close>.
\<close>

fun fifoTakes :: "real \<Rightarrow> 'a SimpleLot_scheme list \<Rightarrow> ('a SimpleLot_scheme \<times> real) list" where
  "fifoTakes remaining [] = []"
| "fifoTakes remaining (lot # lots) =
     (if remaining \<le> 0 then []
      else
        (let take = min (size_lot lot) remaining
         in (lot, take) #
              (if size_lot lot - take \<le> 0 then fifoTakes (remaining - take) lots else [])))"

definition takeProceeds :: "real \<Rightarrow> ('a SimpleLot_scheme \<times> real) list \<Rightarrow> real" where
  "takeProceeds price_t takes = sum_list (map (\<lambda>(lot, take). take * price_t) takes)"

definition takeCost :: "('a SimpleLot_scheme \<times> real) list \<Rightarrow> real" where
  "takeCost takes = sum_list (map (\<lambda>(lot, take). cost lot * (take / size_lot lot)) takes)"

definition flaggedTakes :: "(Lot \<times> real) list \<Rightarrow> (Lot \<times> real) list" where
  "flaggedTakes takes = filter (\<lambda>(lot, take). fromSub1Buy lot) takes"

text \<open>
  The scenario of the specification: two buys of 10 shares on one asset, at \$0.50 and
  \$0.60 (lots of cost \$5 and \$6), then a sell of 15 shares at \$0.70.
\<close>

definition fifoExampleTrades :: "Trade list" where
  "fifoExampleTrades =
     [\<lparr>asset = Some ''X'', market = None, side = BUY, size_tr = 10, price = 1 / 2\<rparr>,
      \<lparr>asset = Some ''X'', market = None, side = BUY, size_tr = 10, price = 6 / 10\<rparr>,
      \<lparr>asset = Some ''X'', market = None, side = SELL, size_tr = 15, price = 7 / 10\<rparr>]"

definition fifoExampleLots :: "SimpleLot list" where
  "fifoExampleLots = [\<lparr>size_lot = 10, cost = 5\<rparr>, \<lparr>size_lot = 10, cost = 6\<rparr>]"

text \<open>
  The same scenario at a tenth of the prices, so that both buys cost less than \$1 and
  their lots carry the flag of the sub-\$1 pass.
\<close>

definition sub1ExampleTrades :: "Trade list" where
  "sub1ExampleTrades =
     [\<lparr>asset = Some ''X'', market = None, side = BUY, size_tr = 10, price = 5 / 100\<rparr>,
      \<lparr>asset = Some ''X'', market = None, side = BUY, size_tr = 10, price = 6 / 100\<rparr>,
      \<lparr>asset = Some ''X'', market = None, side = SELL, size_tr = 15, price = 7 / 100\<rparr>]"

definition sub1ExampleLots :: "Lot list" where
  "sub1ExampleLots = [\<lparr>size_lot = 10, cost = 5 / 10, fromSub1Buy = True\<rparr>,
                      \<lparr>size_lot = 10, cost = 6 / 10, fromSub1Buy = True\<rparr>]"

section \<open>docs: the polling loop of the copy-trading service\<close>

text \<open>
  The \<^verbatim>\<open>Activity\<close> of the data API, with the fields the loop reads. A rejected promise
  or a thrown exception is a value of type \<open>thrown\<close>: an \<^verbatim>\<open>Error\<close> with its message, or
  any other thrown value.
\<close>

datatype thrown = Error string | NonError

record Activity =
  transactionHash :: string
  timestamp :: int
  side_a :: Side
  proxyWallet :: string

text \<open>
  \<^verbatim>\<open>Promise.all\<close> over the per-wallet queries: it fulfils with all results, in the order of
  the wallets, when every query fulfils, and rejects as soon as one query rejects (the
  model reports the first rejection in wallet order; which rejection is reported plays no
  role below).
\<close>

fun promiseAll :: "(thrown + 'a) list \<Rightarrow> thrown + 'a list" where
  "promiseAll [] = Inr []"
| "promiseAll (r # rs) =
     (case r of
        Inl e \<Rightarrow> Inl e
      | Inr x \<Rightarrow> (case promiseAll rs of Inl e \<Rightarrow> Inl e | Inr xs \<Rightarrow> Inr (x # xs)))"

text \<open>
  \<^verbatim>\<open>results.flat().sort((a, b) => b.timestamp - a.timestamp)\<close>: the comparator puts the
  larger timestamp first, and the sort of JavaScript is stable.
\<close>

definition sortByTimestamp :: "Activity list \<Rightarrow> Activity list" where
  "sortByTimestamp as = sort_key (\<lambda>a. - timestamp a) as"

text \<open>
  \<^verbatim>\<open>pollTargetWallets\<close> (implementation document, lines 43-67). \<open>getActivity wallet start\<close>
  is the data API; the state is \<^verbatim>\<open>lastCheckTimestamp\<close>, assigned only after the
  \<^verbatim>\<open>await\<close> has fulfilled.
\<close>

definition pollTargetWallets ::
  "(string \<Rightarrow> int \<Rightarrow> thrown + Activity list) \<Rightarrow> int \<Rightarrow> int \<Rightarrow> string list
     \<Rightarrow> (thrown + Activity list) \<times> int" where
  "pollTargetWallets getActivity now lastCheckTimestamp targetWallets =
     (let start = lastCheckTimestamp
      in case promiseAll (map (\<lambda>wallet. getActivity wallet start) targetWallets) of
           Inl e \<Rightarrow> (Inl e, lastCheckTimestamp)
         | Inr results \<Rightarrow> (Inr (sortByTimestamp (concat results)), now))"

text \<open>
  The loop over the new activities in the timer callback of \<^verbatim>\<open>startCopyTrading\<close>: a BUY is
  handed to \<^verbatim>\<open>executeCopyTrade\<close>, whose rejection leaves the loop. The result lists the
  activities handed over, and the exception if one ended the loop.
\<close>

fun copyLoop :: "(Activity \<Rightarrow> thrown + unit) \<Rightarrow> Activity list \<Rightarrow> Activity list \<times> thrown option" where
  "copyLoop executeCopyTrade [] = ([], None)"
| "copyLoop executeCopyTrade (activity # rest) =
     (if side_a activity = BUY then
        (case executeCopyTrade activity of
           Inl e \<Rightarrow> ([activity], Some e)
         | Inr _ \<Rightarrow> (let r = copyLoop executeCopyTrade rest in (activity # fst r, snd r)))
      else copyLoop executeCopyTrade rest)"

text \<open>
  One tick of \<^verbatim>\<open>startCopyTrading\<close> (lines 69-84): the body of the timer callback is one
  \<^verbatim>\<open>try\<close> block, whose \<^verbatim>\<open>catch\<close> logs the error. The tick returns the trades handed
  downstream, what was logged as \<^verbatim>\<open>Poll error\<close>, and the new \<^verbatim>\<open>lastCheckTimestamp\<close>;
  it has no way to return an exception to the timer.
\<close>

record Tick =
  delivered :: "Activity list"
  pollError :: "thrown option"
  lastCheck :: int

definition copyTradingTick ::
  "(string \<Rightarrow> int \<Rightarrow> thrown + Activity list) \<Rightarrow> (Activity \<Rightarrow> thrown + unit)
     \<Rightarrow> int \<Rightarrow> int \<Rightarrow> string list \<Rightarrow> Tick" where
  "copyTradingTick getActivity executeCopyTrade now lastCheckTimestamp targetWallets =
     (case pollTargetWallets getActivity now lastCheckTimestamp targetWallets of
        (Inl e, ts) \<Rightarrow> \<lparr>delivered = [], pollError = Some e, lastCheck = ts\<rparr>
      | (Inr newActivities, ts) \<Rightarrow>
          (let r = copyLoop executeCopyTrade newActivities
           in \<lparr>delivered = fst r, pollError = snd r, lastCheck = ts\<rparr>))"

text \<open>
  Deduplication (refactoring document, lines 160-174). A JavaScript \<^verbatim>\<open>Set\<close> iterates in
  insertion order, so \<^verbatim>\<open>seenTxHashes\<close> is the list of its members, oldest first:
  \<^verbatim>\<open>has\<close> is membership, \<^verbatim>\<open>add\<close> of a new hash appends, and
  \<^verbatim>\<open>Array.from(set).slice(0, 500)\<close> followed by \<^verbatim>\<open>delete\<close> removes the first 500. The two
  statements of the snippet run one after the other for each activity.
\<close>

definition cleanup :: "string list \<Rightarrow> string list" where
  "cleanup seenTxHashes =
     (if length seenTxHashes > 1000 then drop 500 seenTxHashes else seenTxHashes)"

definition dedupStep :: "string list \<times> Activity list \<Rightarrow> Activity \<Rightarrow> string list \<times> Activity list" where
  "dedupStep st activity =
     (if transactionHash activity \<in> set (fst st) then st
      else (cleanup (fst st @ [transactionHash activity]), snd st @ [activity]))"

definition dedupRun :: "string list \<Rightarrow> Activity list \<Rightarrow> string list \<times> Activity list" where
  "dedupRun seenTxHashes activities = foldl dedupStep (seenTxHashes, []) activities"

text \<open>A run of 1001 trades with pairwise different hashes, followed by the first one again.\<close>

definition hashOf :: "nat \<Rightarrow> string" where
  "hashOf n = ''0x'' @ replicate n (CHR ''f'')"

definition activityOf :: "nat \<Rightarrow> Activity" where
  "activityOf n = \<lparr>transactionHash = hashOf n, timestamp = int n, side_a = BUY,
                    proxyWallet = ''0xw1''\<rparr>"

definition floodRun :: "Activity list" where
  "floodRun = map activityOf [0..<1001] @ [activityOf 0]"

text \<open>Two watched wallets with one BUY each; in the second scenario the first query rejects.\<close>

definition act1 :: Activity where
  "act1 = \<lparr>transactionHash = ''0xa'', timestamp = 1, side_a = BUY, proxyWallet = ''0xw1''\<rparr>"

definition act2 :: Activity where
  "act2 = \<lparr>transactionHash = ''0xb'', timestamp = 2, side_a = BUY, proxyWallet = ''0xw2''\<rparr>"

definition twoWalletApi :: "string \<Rightarrow> int \<Rightarrow> thrown + Activity list" where
  "twoWalletApi wallet start = (if wallet = ''0xw1'' then Inr [act1] else Inr [act2])"

definition failingApi :: "string \<Rightarrow> int \<Rightarrow> thrown + Activity list" where
  "failingApi wallet start =
     (if wallet = ''0xw1'' then Inl (Error ''fetch failed'') else Inr [act2])"

definition executeOk :: "Activity \<Rightarrow> thrown + unit" where
  "executeOk activity = Inr ()"

section \<open>scripts/e2e-builder-test.ts: order confirmation\<close>

text \<open>
  Modelled from the spec: the enum \<^verbatim>\<open>OrderStatus\<close> of \<^verbatim>\<open>src/core/types.ts\<close>, which is not
  among the sources. The script names five of its members; the specification gives the
  state machine \<^verbatim>\<open>NEW -> PARTIALLY_FILLED* -> FILLED | CANCELLED | EXPIRED | REJECTED\<close>.
\<close>

datatype OrderStatus = NEW | PARTIALLY_FILLED | FILLED | CANCELLED | EXPIRED | REJECTED

text \<open>The terminal states in the words of the specification.\<close>

definition isTerminal :: "OrderStatus \<Rightarrow> bool" where
  "isTerminal st = (st = FILLED \<or> st = CANCELLED \<or> st = EXPIRED \<or> st = REJECTED)"

record Order =
  status :: OrderStatus
  filledSize :: real
  originalSize :: real

text \<open>The result of \<^verbatim>\<open>createLimitOrder\<close> and \<^verbatim>\<open>createMarketOrder\<close>.\<close>

record OrderResult =
  success_o :: bool
  orderId :: "string option"
  errorMsg :: "string option"
  transactionHashes :: "string list option"

text \<open>
  The trading service as the script sees it during one step. \<open>getOrder_reply k\<close> is the
  outcome of the \<open>k\<close>-th call of \<^verbatim>\<open>getOrder\<close> (a rejection, \<^verbatim>\<open>null\<close>, or an order) and
  \<open>getOrder_ms k\<close> the time that call takes in milliseconds; the other fields are the
  outcomes of the single calls a step makes.
\<close>

record TradingService =
  getOrder_reply :: "nat \<Rightarrow> thrown + Order option"
  getOrder_ms :: "nat \<Rightarrow> nat"
  createLimitOrder_reply :: "thrown + OrderResult"
  createMarketOrder_reply :: "thrown + OrderResult"
  cancelOrder_reply :: "thrown + unit"

record WaitResult =
  filled :: bool
  order :: "Order option"

text \<open>
  The loop of \<^verbatim>\<open>waitForFill\<close> (lines 140-163). \<open>elapsed\<close> is \<^verbatim>\<open>Date.now() - start\<close> when
  the loop condition is evaluated, \<open>k\<close> the number of \<^verbatim>\<open>getOrder\<close> calls made so far;
  \<^verbatim>\<open>sleep(2000)\<close> advances the clock by 2000 ms. The result carries, next to the value
  returned, the number of \<^verbatim>\<open>getOrder\<close> calls made.
\<close>

function waitLoop :: "TradingService \<Rightarrow> nat \<Rightarrow> nat \<Rightarrow> nat \<Rightarrow> thrown + WaitResult \<times> nat" where
  "waitLoop ts timeoutMs elapsed k =
     (if elapsed < timeoutMs then
        (case getOrder_reply ts k of
           Inl e \<Rightarrow> Inl e
         | Inr None \<Rightarrow> Inr (\<lparr>filled = False, order = None\<rparr>, Suc k)
         | Inr (Some ord) \<Rightarrow>
             if status ord = FILLED then Inr (\<lparr>filled = True, order = Some ord\<rparr>, Suc k)
             else if status ord = CANCELLED \<or> status ord = EXPIRED \<or> status ord = REJECTED
               then Inr (\<lparr>filled = False, order = Some ord\<rparr>, Suc k)
             else waitLoop ts timeoutMs (elapsed + getOrder_ms ts k + 2000) (Suc k))
      else
        (case getOrder_reply ts k of
           Inl e \<Rightarrow> Inl e
         | Inr finalOrder \<Rightarrow>
             Inr (\<lparr>filled = (case finalOrder of None \<Rightarrow> False | Some ord \<Rightarrow> status ord = FILLED),
                  order = finalOrder\<rparr>, Suc k)))"
  by pat_completeness auto
termination
  by (relation "measure (\<lambda>(ts, timeoutMs, elapsed, k). timeoutMs - elapsed)") auto

declare waitLoop.simps [simp del]

text \<open>\<^verbatim>\<open>waitForFill(tradingService, orderId, label, timeoutMs = 15000)\<close>.\<close>

definition waitForFill :: "TradingService \<Rightarrow> nat option \<Rightarrow> thrown + WaitResult \<times> nat" where
  "waitForFill ts timeoutMs =
     waitLoop ts (case timeoutMs of None \<Rightarrow> 15000 | Some t \<Rightarrow> t) 0 0"

text \<open>
  The time \<^verbatim>\<open>Date.now() - start\<close> at which the \<open>k\<close>-th poll of a run of the loop is
  decided: every earlier iteration took its \<^verbatim>\<open>getOrder\<close> call and the sleep of 2000 ms.
\<close>

fun pollTime :: "TradingService \<Rightarrow> nat \<Rightarrow> nat" where
  "pollTime ts 0 = 0"
| "pollTime ts (Suc k) = pollTime ts k + getOrder_ms ts k + 2000"

text \<open>
  An entry of the \<^verbatim>\<open>results\<close> list of the script. The detail text is kept in structured
  form: the number formatting of the script is not modelled.
\<close>

datatype Detail =
    Failed string
  | Filled real
  | NotFilled "OrderStatus option"
  | AcceptedStatus "OrderStatus option"
  | Matched string
  | Accepted

record StepResult =
  step :: string
  success_s :: bool
  detail :: Detail

definition orElse :: "string option \<Rightarrow> string \<Rightarrow> string" where
  "orElse s d = (if truthy s then the s else d)"

text \<open>
  Step 6, the limit SELL (lines 516-542); step 5 differs by the side and by one extra
  \<^verbatim>\<open>getOrder\<close> call that checks the maker. A rejection of \<^verbatim>\<open>createLimitOrder\<close> or of
  \<^verbatim>\<open>getOrder\<close> leaves the step (the script ends in \<^verbatim>\<open>main().catch\<close>); a rejection of
  \<^verbatim>\<open>cancelOrder\<close> is caught by the empty \<^verbatim>\<open>catch\<close>. The result carries, next to the entry
  pushed to \<^verbatim>\<open>results\<close>, the number of \<^verbatim>\<open>cancelOrder\<close> calls made.
\<close>

definition limitSellStep :: "TradingService \<Rightarrow> thrown + StepResult \<times> nat" where
  "limitSellStep ts =
     (case createLimitOrder_reply ts of
        Inl e \<Rightarrow> Inl e
      | Inr sellResult \<Rightarrow>
          if \<not> success_o sellResult then
            Inr (\<lparr>step = ''Limit SELL (fill)'', success_s = False,
                  detail = Failed (orElse (errorMsg sellResult) ''failed'')\<rparr>, 0)
          else
            (case waitForFill ts None of
               Inl e \<Rightarrow> Inl e
             | Inr (fillResult, polls) \<Rightarrow>
                 if filled fillResult then
                   Inr (\<lparr>step = ''Limit SELL (fill)'', success_s = True,
                         detail = Filled (case order fillResult of
                                            None \<Rightarrow> 0 | Some ord \<Rightarrow> filledSize ord)\<rparr>, 0)
                 else
                   (case cancelOrder_reply ts of
                      Inl e \<Rightarrow>
                        Inr (\<lparr>step = ''Limit SELL (fill)'', success_s = False,
                              detail = NotFilled (map_option status (order fillResult))\<rparr>, 1)
                    | Inr u \<Rightarrow>
                        Inr (\<lparr>step = ''Limit SELL (fill)'', success_s = False,
                              detail = NotFilled (map_option status (order fillResult))\<rparr>, 1))))"

text \<open>
  Step 7, the market BUY (lines 555-585): the fill is polled for 10 seconds; an order that
  is not filled is recorded as accepted, and no cancel is sent.
\<close>

definition marketBuyStep :: "TradingService \<Rightarrow> thrown + StepResult \<times> nat" where
  "marketBuyStep ts =
     (case createMarketOrder_reply ts of
        Inl e \<Rightarrow> Inl e
      | Inr marketBuyResult \<Rightarrow>
          if \<not> success_o marketBuyResult then
            Inr (\<lparr>step = ''Market BUY (fill)'', success_s = False,
                  detail = Failed (orElse (errorMsg marketBuyResult) ''failed'')\<rparr>, 0)
          else if truthy (orderId marketBuyResult) then
            (case waitForFill ts (Some 10000) of
               Inl e \<Rightarrow> Inl e
             | Inr (fillResult, polls) \<Rightarrow>
                 if filled fillResult then
                   Inr (\<lparr>step = ''Market BUY (fill)'', success_s = True,
                         detail = Filled (case order fillResult of
                                            None \<Rightarrow> 0 | Some ord \<Rightarrow> filledSize ord)\<rparr>, 0)
                 else
                   Inr (\<lparr>step = ''Market BUY (fill)'', success_s = True,
                         detail = AcceptedStatus (map_option status (order fillResult))\<rparr>, 0))
          else
            (case transactionHashes marketBuyResult of
               Some (tx # txs) \<Rightarrow>
                 Inr (\<lparr>step = ''Market BUY (fill)'', success_s = True, detail = Matched tx\<rparr>, 0)
             | _ \<Rightarrow>
                 Inr (\<lparr>step = ''Market BUY (fill)'', success_s = True, detail = Accepted\<rparr>, 0)))"

text \<open>Services for the scenarios: an order that stays partially filled, one filled at the third poll.\<close>

definition partialOrder :: Order where
  "partialOrder = \<lparr>status = PARTIALLY_FILLED, filledSize = 2, originalSize = 5\<rparr>"

definition filledOrder :: Order where
  "filledOrder = \<lparr>status = FILLED, filledSize = 5, originalSize = 5\<rparr>"

definition placed :: OrderResult where
  "placed = \<lparr>success_o = True, orderId = Some ''0xorder'', errorMsg = None,
             transactionHashes = None\<rparr>"

definition refused :: OrderResult where
  "refused = \<lparr>success_o = False, orderId = None, errorMsg = Some ''not enough balance'',
              transactionHashes = None\<rparr>"

definition stuckService :: TradingService where
  "stuckService = \<lparr>getOrder_reply = (\<lambda>k. Inr (Some partialOrder)), getOrder_ms = (\<lambda>k. 0),
                    createLimitOrder_reply = Inr placed, createMarketOrder_reply = Inr placed,
                    cancelOrder_reply = Inl (Error ''cancel failed'')\<rparr>"

definition fillingService :: TradingService where
  "fillingService = \<lparr>getOrder_reply = (\<lambda>k. if k < 2 then Inr (Some partialOrder)
                                             else Inr (Some filledOrder)),
                      getOrder_ms = (\<lambda>k. 0),
                      createLimitOrder_reply = Inr placed, createMarketOrder_reply = Inr placed,
                      cancelOrder_reply = Inr ()\<rparr>"

definition refusingService :: TradingService where
  "refusingService = \<lparr>getOrder_reply = (\<lambda>k. Inr None), getOrder_ms = (\<lambda>k. 0),
                       createLimitOrder_reply = Inr refused, createMarketOrder_reply = Inr refused,
                       cancelOrder_reply = Inr ()\<rparr>"

section \<open>scripts/smart-money/crypto-copy-trade.ts: holdings\<close>

definition SIZE_SCALE :: real where
  "SIZE_SCALE = 3 / 10"

record Holding =
  shares :: real
  costBasis :: real
  marketSlug_h :: string

text \<open>The fields of the SDK's trade and result that \<^verbatim>\<open>onTrade\<close> reads.\<close>

record SmartMoneyTrade =
  traderAddress :: string
  tokenId :: "string option"
  side_sm :: Side
  size_sm :: real
  price_sm :: real
  marketSlug :: "string option"

record CopyTradeResult =
  success :: bool
  copySizeUsed :: "real option"
  copyValueUsed :: "real option"

text \<open>
  The holdings update of \<^verbatim>\<open>onTrade\<close> (lines 143-147 and 179-198); \<^verbatim>\<open>holdings\<close> is the
  \<^verbatim>\<open>Map\<close> from token id to position.
\<close>

definition onTradeHoldings ::
  "(string \<rightharpoonup> Holding) \<Rightarrow> SmartMoneyTrade \<Rightarrow> CopyTradeResult \<Rightarrow> (string \<rightharpoonup> Holding)" where
  "onTradeHoldings holdings trade result =
     (let computedSize = size_sm trade * SIZE_SCALE;
          computedValue = computedSize * price_sm trade;
          copySize = (case copySizeUsed result of None \<Rightarrow> computedSize | Some v \<Rightarrow> v);
          copyValue = (case copyValueUsed result of None \<Rightarrow> computedValue | Some v \<Rightarrow> v)
      in if success result \<and> truthy (tokenId trade) then
           (let key = the (tokenId trade)
            in if side_sm trade = BUY then
                 (case holdings key of
                    Some cur \<Rightarrow>
                      holdings(key \<mapsto> cur\<lparr>shares := shares cur + copySize,
                                          costBasis := costBasis cur + copyValue\<rparr>)
                  | None \<Rightarrow>
                      holdings(key \<mapsto> \<lparr>shares = copySize, costBasis = copyValue,
                                       marketSlug_h = orElse (marketSlug trade) ''unknown''\<rparr>))
               else
                 (case holdings key of
                    Some cur \<Rightarrow>
                      if shares cur > 0 then
                        (let ratio = min 1 (copySize / shares cur);
                             cur' = cur\<lparr>costBasis := costBasis cur - costBasis cur * ratio,
                                        shares := shares cur - copySize\<rparr>
                         in if shares cur' \<le> 0 then holdings(key := None)
                            else holdings(key \<mapsto> cur'))
                      else holdings
                  | None \<Rightarrow> holdings))
         else holdings)"

text \<open>The option \<^verbatim>\<open>getPositionSharesForToken\<close> passed to the SDK (line 137).\<close>

definition getPositionSharesForToken :: "(string \<rightharpoonup> Holding) \<Rightarrow> string \<Rightarrow> real" where
  "getPositionSharesForToken holdings tokenId_t =
     (case holdings tokenId_t of None \<Rightarrow> 0 | Some h \<Rightarrow> shares h)"

definition exampleHoldings :: "string \<rightharpoonup> Holding" where
  "exampleHoldings = [''tokenX'' \<mapsto> \<lparr>shares = 50, costBasis = 20, marketSlug_h = ''m''\<rparr>]"

definition sellX :: SmartMoneyTrade where
  "sellX = \<lparr>traderAddress = ''0xw1'', tokenId = Some ''tokenX'', side_sm = SELL,
            size_sm = 100, price_sm = 4 / 10, marketSlug = Some ''m''\<rparr>"

definition failedResult :: CopyTradeResult where
  "failedResult = \<lparr>success = False, copySizeUsed = Some 30, copyValueUsed = Some 12\<rparr>"

definition okResult :: CopyTradeResult where
  "okResult = \<lparr>success = True, copySizeUsed = Some 30, copyValueUsed = Some 12\<rparr>"

section \<open>src/services/relayer-service.ts\<close>

text \<open>
  The transaction a relayer response resolves to; \<^verbatim>\<open>wait()\<close> may also resolve to
  \<^verbatim>\<open>undefined\<close>. \<^verbatim>\<open>RelayerState.FAILED\<close> is the string \<^verbatim>\<open>'STATE_FAILED'\<close>.
\<close>

record RelayerTransaction =
  state :: string
  transactionHash_r :: "string option"
  to_r :: "string option"

definition RelayerState_FAILED :: string where
  "RelayerState_FAILED = ''STATE_FAILED''"

record Transaction =
  to_tx :: string
  value_tx :: string
  data_tx :: string

text \<open>
  The relay client: \<^verbatim>\<open>execute\<close> and \<^verbatim>\<open>deploy\<close> either reject or give a response, whose
  \<^verbatim>\<open>wait()\<close> either rejects or resolves to a transaction or to nothing.
\<close>

type_synonym relayOutcome = "thrown + (thrown + RelayerTransaction option)"

record RelayClient =
  execute :: "Transaction list \<Rightarrow> relayOutcome"
  deploy :: relayOutcome

record RelayerResult =
  success_r :: bool
  txHash :: "string option"
  errorMessage :: "string option"

record SafeDeployResult = RelayerResult +
  safeAddress :: string

text \<open>\<^verbatim>\<open>error instanceof Error ? error.message : 'Unknown error'\<close>.\<close>

definition errorText :: "thrown \<Rightarrow> string" where
  "errorText error = (case error of Error message \<Rightarrow> message | NonError \<Rightarrow> ''Unknown error'')"

definition failure :: "string \<Rightarrow> RelayerResult" where
  "failure msg = \<lparr>success_r = False, txHash = None, errorMessage = Some msg\<rparr>"

text \<open>
  The \<^verbatim>\<open>try\<close> block that \<^verbatim>\<open>approveUsdc\<close>, \<^verbatim>\<open>split\<close>, \<^verbatim>\<open>merge\<close>, \<^verbatim>\<open>redeem\<close> and
  \<^verbatim>\<open>executeBatch\<close> each repeat with their own label:
  \<^verbatim>\<open>`${label}: ${tx?.state || 'No transaction'}`\<close> is the message of a missing or failed
  transaction.
\<close>

definition executeAndWait :: "string \<Rightarrow> RelayClient \<Rightarrow> Transaction list \<Rightarrow> RelayerResult" where
  "executeAndWait label rc transactions =
     (case execute rc transactions of
        Inl error \<Rightarrow> failure (errorText error)
      | Inr response \<Rightarrow>
          (case response of
             Inl error \<Rightarrow> failure (errorText error)
           | Inr None \<Rightarrow> failure (label @ '': '' @ ''No transaction'')
           | Inr (Some tx) \<Rightarrow>
               if state tx = RelayerState_FAILED
               then failure (label @ '': '' @ (if state tx \<noteq> [] then state tx
                                               else ''No transaction''))
               else \<lparr>success_r = True, txHash = transactionHash_r tx, errorMessage = None\<rparr>))"

definition executeBatch :: "RelayClient \<Rightarrow> Transaction list \<Rightarrow> RelayerResult" where
  "executeBatch rc transactions = executeAndWait ''Batch execution failed'' rc transactions"

definition deployFailure :: "string \<Rightarrow> SafeDeployResult" where
  "deployFailure msg =
     \<lparr>success_r = False, txHash = None, errorMessage = Some msg, safeAddress = []\<rparr>"

definition deploySafe :: "RelayClient \<Rightarrow> SafeDeployResult" where
  "deploySafe rc =
     (case deploy rc of
        Inl error \<Rightarrow> deployFailure (errorText error)
      | Inr response \<Rightarrow>
          (case response of
             Inl error \<Rightarrow> deployFailure (errorText error)
           | Inr None \<Rightarrow> deployFailure ''Deployment failed: No transaction returned''
           | Inr (Some tx) \<Rightarrow>
               if state tx = RelayerState_FAILED
               then deployFailure (''Safe deployment failed: '' @ state tx)
               else if \<not> truthy (to_r tx)
               then deployFailure ''Safe address not found in transaction''
               else \<lparr>success_r = True, txHash = transactionHash_r tx, errorMessage = None,
                     safeAddress = the (to_r tx)\<rparr>))"

text \<open>
  The ABI encoder of ethers, which the four CTF operations call before their \<^verbatim>\<open>try\<close>
  block: \<^verbatim>\<open>parseUnits\<close> and \<^verbatim>\<open>encodeFunctionData\<close> throw on arguments they cannot
  encode. The contract addresses and the decimals come from \<^verbatim>\<open>ctf-client.js\<close>, which is
  not among the sources, and are parameters.
\<close>

datatype AbiValue = Address string | Bytes32 string | Uint nat | UintArray "nat list"

record Ethers =
  parseUnits :: "string \<Rightarrow> nat \<Rightarrow> thrown + nat"
  encodeFunctionData :: "string \<Rightarrow> AbiValue list \<Rightarrow> thrown + string"

record CtfConstants =
  CTF_CONTRACT :: string
  USDC_CONTRACT :: string
  USDC_DECIMALS :: nat

definition HashZero :: string where
  "HashZero = ''0x'' @ replicate 64 (CHR ''0'')"

text \<open>
  The statements of each CTF operation that precede its \<^verbatim>\<open>try\<close> block: they build the
  calldata, and an exception they throw is not caught by the operation.
\<close>

definition approveData :: "Ethers \<Rightarrow> string \<Rightarrow> nat \<Rightarrow> thrown + string" where
  "approveData eth spender amount =
     encodeFunctionData eth ''approve'' [Address spender, Uint amount]"

definition splitData :: "Ethers \<Rightarrow> CtfConstants \<Rightarrow> string \<Rightarrow> string \<Rightarrow> thrown + string" where
  "splitData eth c conditionId amount =
     (case parseUnits eth amount (USDC_DECIMALS c) of
        Inl e \<Rightarrow> Inl e
      | Inr amountWei \<Rightarrow>
          encodeFunctionData eth ''splitPosition''
            [Address (USDC_CONTRACT c), Bytes32 HashZero, Bytes32 conditionId,
             UintArray [1, 2], Uint amountWei])"

definition mergeData :: "Ethers \<Rightarrow> CtfConstants \<Rightarrow> string \<Rightarrow> string \<Rightarrow> thrown + string" where
  "mergeData eth c conditionId amount =
     (case parseUnits eth amount (USDC_DECIMALS c) of
        Inl e \<Rightarrow> Inl e
      | Inr amountWei \<Rightarrow>
          encodeFunctionData eth ''mergePositions''
            [Address (USDC_CONTRACT c), Bytes32 HashZero, Bytes32 conditionId,
             UintArray [1, 2], Uint amountWei])"

datatype Outcome = YES | NO

definition redeemData :: "Ethers \<Rightarrow> CtfConstants \<Rightarrow> string \<Rightarrow> Outcome \<Rightarrow> thrown + string" where
  "redeemData eth c conditionId outcome =
     (let indexSets = (if outcome = YES then [1] else [2])
      in encodeFunctionData eth ''redeemPositions''
           [Address (USDC_CONTRACT c), Bytes32 HashZero, Bytes32 conditionId,
            UintArray indexSets])"

text \<open>
  The four operations: the calldata is built first, then the \<^verbatim>\<open>try\<close> block runs the
  single transaction through the relayer. \<open>Inl\<close> is a rejected promise.
\<close>

definition approveUsdc ::
  "Ethers \<Rightarrow> CtfConstants \<Rightarrow> RelayClient \<Rightarrow> string \<Rightarrow> nat \<Rightarrow> thrown + RelayerResult" where
  "approveUsdc eth c rc spender amount =
     (case approveData eth spender amount of
        Inl e \<Rightarrow> Inl e
      | Inr data \<Rightarrow>
          Inr (executeAndWait ''USDC approval failed'' rc
                 [\<lparr>to_tx = USDC_CONTRACT c, value_tx = ''0'', data_tx = data\<rparr>]))"

definition split ::
  "Ethers \<Rightarrow> CtfConstants \<Rightarrow> RelayClient \<Rightarrow> string \<Rightarrow> string \<Rightarrow> thrown + RelayerResult" where
  "split eth c rc conditionId amount =
     (case splitData eth c conditionId amount of
        Inl e \<Rightarrow> Inl e
      | Inr data \<Rightarrow>
          Inr (executeAndWait ''Split failed'' rc
                 [\<lparr>to_tx = CTF_CONTRACT c, value_tx = ''0'', data_tx = data\<rparr>]))"

definition merge ::
  "Ethers \<Rightarrow> CtfConstants \<Rightarrow> RelayClient \<Rightarrow> string \<Rightarrow> string \<Rightarrow> thrown + RelayerResult" where
  "merge eth c rc conditionId amount =
     (case mergeData eth c conditionId amount of
        Inl e \<Rightarrow> Inl e
      | Inr data \<Rightarrow>
          Inr (executeAndWait ''Merge failed'' rc
                 [\<lparr>to_tx = CTF_CONTRACT c, value_tx = ''0'', data_tx = data\<rparr>]))"

definition redeem ::
  "Ethers \<Rightarrow> CtfConstants \<Rightarrow> RelayClient \<Rightarrow> string \<Rightarrow> Outcome \<Rightarrow> thrown + RelayerResult" where
  "redeem eth c rc conditionId outcome =
     (case redeemData eth c conditionId outcome of
        Inl e \<Rightarrow> Inl e
      | Inr data \<Rightarrow>
          Inr (executeAndWait ''Redeem failed'' rc
                 [\<lparr>to_tx = CTF_CONTRACT c, value_tx = ''0'', data_tx = data\<rparr>]))"

text \<open>
  The transaction the relayer obtained, if any, and whether it counts as a success in the
  words of the claim: a transaction was obtained and its state is not FAILED.
\<close>

definition obtained :: "relayOutcome \<Rightarrow> RelayerTransaction option" where
  "obtained r = (case r of Inr (Inr (Some tx)) \<Rightarrow> Some tx | _ \<Rightarrow> None)"

definition notFailed :: "relayOutcome \<Rightarrow> bool" where
  "notFailed r = (case obtained r of None \<Rightarrow> False | Some tx \<Rightarrow> state tx \<noteq> RelayerState_FAILED)"

text \<open>
  What the claim says of a returned result, given what the relayer did: success exactly
  when a transaction that is not FAILED was obtained, then with its hash and no message;
  otherwise with a message.
\<close>

definition resultFor :: "relayOutcome \<Rightarrow> 'a RelayerResult_scheme \<Rightarrow> bool" where
  "resultFor outcome r =
     ((success_r r \<longrightarrow> notFailed outcome
          \<and> txHash r = (case obtained outcome of None \<Rightarrow> None | Some tx \<Rightarrow> transactionHash_r tx)
          \<and> errorMessage r = None)
      \<and> (\<not> notFailed outcome \<longrightarrow> \<not> success_r r)
      \<and> (\<not> success_r r \<longrightarrow> errorMessage r \<noteq> None \<and> txHash r = None))"

text \<open>
  A scenario: an encoder that accepts only whole decimal amounts and rejects any other
  text, as the one of ethers rejects a malformed number; a relayer that confirms every
  transaction, and one that is down.
\<close>

definition digitsOnlyEthers :: Ethers where
  "digitsOnlyEthers =
     \<lparr>parseUnits = (\<lambda>amount decimals.
         if amount \<noteq> [] \<and> list_all isDigit amount
         then Inr (fromDecimal amount * 10 ^ decimals)
         else Inl (Error ''invalid decimal value'')),
      encodeFunctionData = (\<lambda>name args. Inr (''0x'' @ name))\<rparr>"

definition confirmedTx :: RelayerTransaction where
  "confirmedTx = \<lparr>state = ''STATE_CONFIRMED'', transactionHash_r = Some ''0xabc'',
                  to_r = Some ''0xsafe''\<rparr>"

definition confirmingRelay :: RelayClient where
  "confirmingRelay = \<lparr>execute = (\<lambda>transactions. Inr (Inr (Some confirmedTx))),
                       deploy = Inr (Inr (Some confirmedTx))\<rparr>"

definition failingRelay :: RelayClient where
  "failingRelay = \<lparr>execute = (\<lambda>transactions. Inl (Error ''relayer down'')),
                    deploy = Inr (Inr None)\<rparr>"

definition polygon :: CtfConstants where
  "polygon = \<lparr>CTF_CONTRACT = ''0xctf'', USDC_CONTRACT = ''0xusdc'', USDC_DECIMALS = 6\<rparr>"

section \<open>src/utils/calldata-decoder.ts\<close>

definition MATCH_ORDERS_SELECTOR :: string where
  "MATCH_ORDERS_SELECTOR = ''0x2287e350''"

definition startsWith :: "string \<Rightarrow> string \<Rightarrow> bool" where
  "startsWith s pre = (take (length pre) s = pre)"

text \<open>\<^verbatim>\<open>String.prototype.toLowerCase\<close> on the ASCII text of an address.\<close>

definition isUpper :: "char \<Rightarrow> bool" where
  "isUpper ch = (65 \<le> (of_char ch :: nat) \<and> (of_char ch :: nat) \<le> 90)"

definition toLowerChar :: "char \<Rightarrow> char" where
  "toLowerChar ch = (if isUpper ch then char_of ((of_char ch :: nat) + 32) else ch)"

definition toLowerCase :: "string \<Rightarrow> string" where
  "toLowerCase s = map toLowerChar s"

text \<open>\<^verbatim>\<open>BigNumber.toString()\<close>: the decimal digits of an unsigned integer.\<close>

definition digitChar :: "nat \<Rightarrow> char" where
  "digitChar d = char_of (48 + d)"

fun toString :: "nat \<Rightarrow> string" where
  "toString n = (if n < 10 then [digitChar n] else toString (n div 10) @ [digitChar (n mod 10)])"

declare toString.simps [simp del]

text \<open>
  The values \<^verbatim>\<open>decodeFunctionData\<close> of ethers returns for \<^verbatim>\<open>matchOrders\<close>: the Order
  tuple of 13 fields, addresses as text, unsigned integers as numbers.
\<close>

record RawOrder =
  salt :: nat
  maker_raw :: string
  signer_raw :: string
  taker_raw :: string
  tokenId_raw :: nat
  makerAmount_raw :: nat
  takerAmount_raw :: nat
  expiration :: nat
  nonce :: nat
  feeRateBps :: nat
  side_raw :: nat
  signatureType :: nat
  signature :: string

record RawMatchOrders =
  takerOrder_raw :: RawOrder
  makerOrders_raw :: "RawOrder list"
  takerFillAmount_raw :: nat
  makerFillAmount_raw :: nat
  makerFillAmounts_raw :: "nat list"
  takerFeeAmount_raw :: nat
  makerFeeAmounts_raw :: "nat list"

record DecodedOrder =
  maker :: string
  signer :: string
  taker :: string
  tokenId_d :: string
  makerAmount :: string
  takerAmount :: string
  side_d :: nat

record DecodedMatchOrders =
  takerOrder :: DecodedOrder
  makerOrders :: "DecodedOrder list"
  takerFillAmount :: string
  makerFillAmounts :: "string list"

definition decodeOrder :: "RawOrder \<Rightarrow> DecodedOrder" where
  "decodeOrder raw =
     \<lparr>maker = toLowerCase (maker_raw raw),
      signer = toLowerCase (signer_raw raw),
      taker = toLowerCase (taker_raw raw),
      tokenId_d = toString (tokenId_raw raw),
      makerAmount = toString (makerAmount_raw raw),
      takerAmount = toString (takerAmount_raw raw),
      side_d = side_raw raw\<rparr>"

text \<open>
  \<^verbatim>\<open>decodeMatchOrdersCalldata\<close> (lines 109-122); the whole body is inside \<^verbatim>\<open>try\<close>, and
  \<open>decodeFunctionData\<close> is the decoder of ethers, which throws on malformed calldata.
\<close>

definition decodeMatchOrdersCalldata ::
  "(string \<Rightarrow> thrown + RawMatchOrders) \<Rightarrow> string \<Rightarrow> DecodedMatchOrders option" where
  "decodeMatchOrdersCalldata decodeFunctionData data_t =
     (if \<not> startsWith data_t MATCH_ORDERS_SELECTOR then None
      else
        (case decodeFunctionData data_t of
           Inl e \<Rightarrow> None
         | Inr decoded \<Rightarrow>
             Some \<lparr>takerOrder = decodeOrder (takerOrder_raw decoded),
                   makerOrders = map decodeOrder (makerOrders_raw decoded),
                   takerFillAmount = toString (takerFillAmount_raw decoded),
                   makerFillAmounts = map toString (makerFillAmounts_raw decoded)\<rparr>))"

text \<open>
  What the claim says of a result, as relations between a decoded value and its rendering.
  A text is the lower-case form of an address when it has no upper-case letter and agrees
  with the address letter by letter up to case; a text renders a number when it is the
  decimal numeral of that number, without leading zeros.
\<close>

definition lowercased :: "string \<Rightarrow> bool" where
  "lowercased s = list_all (\<lambda>ch. \<not> isUpper ch) s"

definition sameLetters :: "string \<Rightarrow> string \<Rightarrow> bool" where
  "sameLetters s raw =
     list_all2 (\<lambda>ch r. ch = r \<or> (isUpper r \<and> (of_char ch :: nat) = of_char r + 32)) s raw"

definition lowerOf :: "string \<Rightarrow> string \<Rightarrow> bool" where
  "lowerOf s raw = (lowercased s \<and> sameLetters s raw)"

definition decimal :: "string \<Rightarrow> bool" where
  "decimal s = (s \<noteq> [] \<and> list_all isDigit s)"

definition rendersNat :: "string \<Rightarrow> nat \<Rightarrow> bool" where
  "rendersNat s n = (decimal s \<and> (length s = 1 \<or> hd s \<noteq> CHR ''0'') \<and> fromDecimal s = n)"

definition orderDecodes :: "RawOrder \<Rightarrow> DecodedOrder \<Rightarrow> bool" where
  "orderDecodes raw d =
     (lowerOf (maker d) (maker_raw raw) \<and> lowerOf (signer d) (signer_raw raw)
      \<and> lowerOf (taker d) (taker_raw raw)
      \<and> rendersNat (tokenId_d d) (tokenId_raw raw)
      \<and> rendersNat (makerAmount d) (makerAmount_raw raw)
      \<and> rendersNat (takerAmount d) (takerAmount_raw raw)
      \<and> side_d d = side_raw raw)"

definition matchDecodes :: "RawMatchOrders \<Rightarrow> DecodedMatchOrders \<Rightarrow> bool" where
  "matchDecodes decoded r =
     (orderDecodes (takerOrder_raw decoded) (takerOrder r)
      \<and> list_all2 orderDecodes (makerOrders_raw decoded) (makerOrders r)
      \<and> rendersNat (takerFillAmount r) (takerFillAmount_raw decoded)
      \<and> list_all2 rendersNat (makerFillAmounts r) (makerFillAmounts_raw decoded))"

text \<open>A scenario: a decoder that knows one calldata string.\<close>

definition rawTaker :: RawOrder where
  "rawTaker = \<lparr>salt = 1, maker_raw = ''0xE3f18aCc'', signer_raw = ''0xE3f18aCc'',
               taker_raw = ''0x0000'', tokenId_raw = 1234, makerAmount_raw = 5000000,
               takerAmount_raw = 10000000, expiration = 0, nonce = 0, feeRateBps = 0,
               side_raw = 0, signatureType = 2, signature = ''0x''\<rparr>"

definition rawMatch :: RawMatchOrders where
  "rawMatch = \<lparr>takerOrder_raw = rawTaker, makerOrders_raw = [rawTaker],
               takerFillAmount_raw = 5000000, makerFillAmount_raw = 10000000,
               makerFillAmounts_raw = [10000000], takerFeeAmount_raw = 0,
               makerFeeAmounts_raw = [0]\<rparr>"

definition oneCallDecoder :: "string \<Rightarrow> thrown + RawMatchOrders" where
  "oneCallDecoder data_t =
     (if data_t = ''0x2287e350aa'' then Inr rawMatch else Inl (Error ''data out-of-bounds''))"

section \<open>The risk gate of the copy-trading subscription\<close>

text \<open>
  Modelled from the spec: the Risk Gate inside \<^verbatim>\<open>startAutoCopyTrading\<close> of the SDK's
  SmartMoneyService, whose source is not among the files (the script
  \<^verbatim>\<open>crypto-copy-trade.ts\<close> only passes it the options \<^verbatim>\<open>noSellLimits\<close> and
  \<^verbatim>\<open>getPositionSharesForToken\<close>). Section 4.3 of the specification: the copy size is
  the source size times the scale, clamped by the optional ceiling; for a SELL it is
  further clamped to the shares held, and a SELL with no shares held is a skip; a BUY is
  skipped above the price ceiling or below the minimum order value; the worst acceptable
  price adds the slippage for a BUY and subtracts it for a SELL.
\<close>

record SourceTrade =
  traderAddress_s :: string
  txHash_s :: string
  side_s :: Side
  asset_s :: string
  size_s :: real
  price_s :: real

record GateOptions =
  sizeScale :: real
  maxSizePerTrade :: "real option"
  maxSlippage :: real
  minOrderValueUsd :: "real option"
  maxPricePerShare :: "real option"

record ReplicaOrderSpec =
  asset_o :: string
  side_o :: Side
  size_o :: real
  worstAcceptablePrice :: real

datatype GateDecision = Skip string | Accept ReplicaOrderSpec

definition riskGate :: "GateOptions \<Rightarrow> (string \<Rightarrow> real) \<Rightarrow> SourceTrade \<Rightarrow> GateDecision" where
  "riskGate opts currentHeldShares trade =
     (let scaled = size_s trade * sizeScale opts;
          capped = (case maxSizePerTrade opts of None \<Rightarrow> scaled | Some m \<Rightarrow> min scaled m);
          held = currentHeldShares (asset_s trade);
          copySize = (if side_s trade = SELL then min capped held else capped)
      in if side_s trade = SELL \<and> held = 0 then Skip ''no shares held''
         else if side_s trade = BUY
                 \<and> (case maxPricePerShare opts of None \<Rightarrow> False | Some m \<Rightarrow> price_s trade > m)
           then Skip ''price above maximum''
         else if side_s trade = BUY
                 \<and> (case minOrderValueUsd opts of
                       None \<Rightarrow> False | Some m \<Rightarrow> copySize * price_s trade < m)
           then Skip ''order value below minimum''
         else Accept \<lparr>asset_o = asset_s trade, side_o = side_s trade, size_o = copySize,
                       worstAcceptablePrice =
                         (if side_s trade = BUY then price_s trade * (1 + maxSlippage opts)
                          else price_s trade * (1 - maxSlippage opts))\<rparr>)"

text \<open>
  Modelled from the spec: the counters of \<^verbatim>\<open>RunStats\<close> and the effect of the gate on them
  (section 4.3: every rejection increments \<^verbatim>\<open>tradesSkipped\<close>, every passed trade
  increments \<^verbatim>\<open>tradesDetected\<close> and proceeds to execution). \<open>submitted\<close> is the order
  handed to the execution stage, \<open>attempted\<close> the flag of the per-trade result.
\<close>

record RunStats =
  tradesDetected :: nat
  tradesExecuted :: nat
  tradesSkipped :: nat
  tradesFailed :: nat

record GateOutcome =
  stats :: RunStats
  submitted :: "ReplicaOrderSpec option"
  attempted :: bool

definition applyRiskGate ::
  "GateOptions \<Rightarrow> (string \<Rightarrow> real) \<Rightarrow> RunStats \<Rightarrow> SourceTrade \<Rightarrow> GateOutcome" where
  "applyRiskGate opts currentHeldShares st trade =
     (case riskGate opts currentHeldShares trade of
        Skip reason \<Rightarrow>
          \<lparr>stats = st\<lparr>tradesSkipped := tradesSkipped st + 1\<rparr>, submitted = None,
            attempted = False\<rparr>
      | Accept spec \<Rightarrow>
          \<lparr>stats = st\<lparr>tradesDetected := tradesDetected st + 1\<rparr>, submitted = Some spec,
            attempted = True\<rparr>)"

text \<open>
  The options the script passes (\<^verbatim>\<open>sizeScale: SIZE_SCALE\<close>, \<^verbatim>\<open>maxSlippage: MAX_SLIPPAGE\<close>,
  \<^verbatim>\<open>minOrderSizeUsdc: MIN_TRADE_SIZE\<close>, \<^verbatim>\<open>maxPricePerShare: MAX_PRICE_PER_SHARE\<close>), and a
  SELL and a BUY of 100 shares at 0.40 by a watched wallet.
\<close>

definition scriptOptions :: GateOptions where
  "scriptOptions = \<lparr>sizeScale = 3 / 10, maxSizePerTrade = None, maxSlippage = 5 / 100,
                     minOrderValueUsd = Some 1, maxPricePerShare = Some (96 / 100)\<rparr>"

definition sourceSell :: SourceTrade where
  "sourceSell = \<lparr>traderAddress_s = ''0xw1'', txHash_s = ''0xa'', side_s = SELL,
                 asset_s = ''tokenX'', size_s = 100, price_s = 4 / 10\<rparr>"

definition sourceBuy :: SourceTrade where
  "sourceBuy = \<lparr>traderAddress_s = ''0xw1'', txHash_s = ''0xb'', side_s = BUY,
                asset_s = ''tokenX'', size_s = 100, price_s = 4 / 10\<rparr>"

definition zeroStats :: RunStats where
  "zeroStats = \<lparr>tradesDetected = 0, tradesExecuted = 0, tradesSkipped = 0, tradesFailed = 0\<rparr>"

section \<open>Properties\<close>

subsection \<open>Slippage price\<close>

lemma riskGate_price:
  "riskGate opts held trade = Accept spec \<Longrightarrow>
     worstAcceptablePrice spec =
       (if side_s trade = BUY then price_s trade * (1 + maxSlippage opts)
        else price_s trade * (1 - maxSlippage opts))
     \<and> side_o spec = side_s trade"
  by (auto simp: riskGate_def Let_def split: if_splits)

lemma logged_price:
  "slippagePrice sd p = (if sd = BUY then p * (1 + MAX_SLIPPAGE) else p * (1 - MAX_SLIPPAGE))"
  "slipPrice sd p = slippagePrice sd p"
  by (simp_all add: slippagePrice_def slipPrice_def)

text \<open>
  Claim C8. For every source trade the gate accepts, the worst-acceptable price of the
  replica order is the observed price times \<open>1 + s\<close> for a BUY and times \<open>1 - s\<close> for a
  SELL, where \<open>s\<close> is the configured slippage; for a price and a slippage that are not
  negative it lies above the observed price for a BUY and below it for a SELL. The script
  configures \<open>s\<close> as \<^verbatim>\<open>MAX_SLIPPAGE\<close> (5 percent), and then the price it prints with the
  copy in \<^verbatim>\<open>onTrade\<close> and lists in the shutdown report is that worst-acceptable price.
\<close>

theorem slippage_price_formula:
  "(riskGate opts held trade = Accept spec \<longrightarrow>
      (side_s trade = BUY \<longrightarrow>
         worstAcceptablePrice spec = price_s trade * (1 + maxSlippage opts))
      \<and> (side_s trade = SELL \<longrightarrow>
         worstAcceptablePrice spec = price_s trade * (1 - maxSlippage opts))
      \<and> (0 \<le> price_s trade \<and> 0 \<le> maxSlippage opts \<longrightarrow>
           (side_s trade = BUY \<longrightarrow> price_s trade \<le> worstAcceptablePrice spec)
           \<and> (side_s trade = SELL \<longrightarrow> worstAcceptablePrice spec \<le> price_s trade))
      \<and> (maxSlippage opts = MAX_SLIPPAGE \<longrightarrow>
           slippagePrice (side_s trade) (price_s trade) = worstAcceptablePrice spec
           \<and> slipPrice (side_s trade) (price_s trade) = worstAcceptablePrice spec))
   \<and> maxSlippage scriptOptions = MAX_SLIPPAGE
   \<and> slippagePrice BUY p = p * (1 + MAX_SLIPPAGE)
   \<and> slippagePrice SELL p = p * (1 - MAX_SLIPPAGE)
   \<and> slipPrice BUY p = p * (1 + MAX_SLIPPAGE)
   \<and> slipPrice SELL p = p * (1 - MAX_SLIPPAGE)
   \<and> MAX_SLIPPAGE = 5 / 100"
proof -
  have a: "riskGate opts held trade = Accept spec \<longrightarrow>
      (side_s trade = BUY \<longrightarrow>
         worstAcceptablePrice spec = price_s trade * (1 + maxSlippage opts))
      \<and> (side_s trade = SELL \<longrightarrow>
         worstAcceptablePrice spec = price_s trade * (1 - maxSlippage opts))
      \<and> (0 \<le> price_s trade \<and> 0 \<le> maxSlippage opts \<longrightarrow>
           (side_s trade = BUY \<longrightarrow> price_s trade \<le> worstAcceptablePrice spec)
           \<and> (side_s trade = SELL \<longrightarrow> worstAcceptablePrice spec \<le> price_s trade))
      \<and> (maxSlippage opts = MAX_SLIPPAGE \<longrightarrow>
           slippagePrice (side_s trade) (price_s trade) = worstAcceptablePrice spec
           \<and> slipPrice (side_s trade) (price_s trade) = worstAcceptablePrice spec)"
  proof
    assume acc: "riskGate opts held trade = Accept spec"
    note w = riskGate_price [OF acc]
    have b1: "side_s trade = BUY \<longrightarrow>
         worstAcceptablePrice spec = price_s trade * (1 + maxSlippage opts)"
      using w by simp
    have b2: "side_s trade = SELL \<longrightarrow>
         worstAcceptablePrice spec = price_s trade * (1 - maxSlippage opts)"
      using w by simp
    have b3: "0 \<le> price_s trade \<and> 0 \<le> maxSlippage opts \<longrightarrow>
           (side_s trade = BUY \<longrightarrow> price_s trade \<le> worstAcceptablePrice spec)
           \<and> (side_s trade = SELL \<longrightarrow> worstAcceptablePrice spec \<le> price_s trade)"
    proof
      assume nn: "0 \<le> price_s trade \<and> 0 \<le> maxSlippage opts"
      then have "0 \<le> price_s trade * maxSlippage opts" by simp
      then show "(side_s trade = BUY \<longrightarrow> price_s trade \<le> worstAcceptablePrice spec)
           \<and> (side_s trade = SELL \<longrightarrow> worstAcceptablePrice spec \<le> price_s trade)"
        using w by (simp add: algebra_simps)
    qed
    have b4: "maxSlippage opts = MAX_SLIPPAGE \<longrightarrow>
           slippagePrice (side_s trade) (price_s trade) = worstAcceptablePrice spec
           \<and> slipPrice (side_s trade) (price_s trade) = worstAcceptablePrice spec"
      using w by (simp add: logged_price)
    from b1 b2 b3 b4 show "(side_s trade = BUY \<longrightarrow>
         worstAcceptablePrice spec = price_s trade * (1 + maxSlippage opts))
      \<and> (side_s trade = SELL \<longrightarrow>
         worstAcceptablePrice spec = price_s trade * (1 - maxSlippage opts))
      \<and> (0 \<le> price_s trade \<and> 0 \<le> maxSlippage opts \<longrightarrow>
           (side_s trade = BUY \<longrightarrow> price_s trade \<le> worstAcceptablePrice spec)
           \<and> (side_s trade = SELL \<longrightarrow> worstAcceptablePrice spec \<le> price_s trade))
      \<and> (maxSlippage opts = MAX_SLIPPAGE \<longrightarrow>
           slippagePrice (side_s trade) (price_s trade) = worstAcceptablePrice spec
           \<and> slipPrice (side_s trade) (price_s trade) = worstAcceptablePrice spec)"
      by blast
  qed
  have c: "maxSlippage scriptOptions = MAX_SLIPPAGE"
    by (simp add: scriptOptions_def MAX_SLIPPAGE_def)
  have d: "slippagePrice BUY p = p * (1 + MAX_SLIPPAGE)"
    "slippagePrice SELL p = p * (1 - MAX_SLIPPAGE)"
    "slipPrice BUY p = p * (1 + MAX_SLIPPAGE)"
    "slipPrice SELL p = p * (1 - MAX_SLIPPAGE)"
    by (simp_all add: logged_price)
  show ?thesis
    by (intro conjI) (rule a c d MAX_SLIPPAGE_def)+
qed

theorem slippage_price_formula_witness:
  "riskGate scriptOptions (getPositionSharesForToken exampleHoldings) sourceSell
     = Accept \<lparr>asset_o = ''tokenX'', side_o = SELL, size_o = 30,
               worstAcceptablePrice = 19 / 50\<rparr>
   \<and> slippagePrice (side_s sourceSell) (price_s sourceSell) = 19 / 50
   \<and> riskGate scriptOptions (getPositionSharesForToken exampleHoldings) sourceBuy
     = Accept \<lparr>asset_o = ''tokenX'', side_o = BUY, size_o = 30,
               worstAcceptablePrice = 21 / 50\<rparr>
   \<and> slippagePrice (side_s sourceBuy) (price_s sourceBuy) = 21 / 50
   \<and> price_s sourceBuy \<le> (21 / 50 :: real)"
proof -
  have gs: "riskGate scriptOptions (getPositionSharesForToken exampleHoldings) sourceSell
     = Accept \<lparr>asset_o = ''tokenX'', side_o = SELL, size_o = 30,
               worstAcceptablePrice = 19 / 50\<rparr>"
    by (simp add: riskGate_def scriptOptions_def sourceSell_def exampleHoldings_def
          getPositionSharesForToken_def Let_def)
  have gb: "riskGate scriptOptions (getPositionSharesForToken exampleHoldings) sourceBuy
     = Accept \<lparr>asset_o = ''tokenX'', side_o = BUY, size_o = 30,
               worstAcceptablePrice = 21 / 50\<rparr>"
    by (simp add: riskGate_def scriptOptions_def sourceBuy_def exampleHoldings_def
          getPositionSharesForToken_def Let_def)
  have m: "maxSlippage scriptOptions = MAX_SLIPPAGE"
    by (simp add: scriptOptions_def MAX_SLIPPAGE_def)
  have nn: "0 \<le> price_s sourceBuy \<and> 0 \<le> maxSlippage scriptOptions"
    by (simp add: sourceBuy_def scriptOptions_def)
  have sb: "side_s sourceBuy = BUY" by (simp add: sourceBuy_def)
  from gs m slippage_price_formula [where opts = scriptOptions
      and held = "getPositionSharesForToken exampleHoldings" and trade = sourceSell
      and spec = "\<lparr>asset_o = ''tokenX'', side_o = SELL, size_o = 30,
               worstAcceptablePrice = 19 / 50\<rparr>"]
  have "slippagePrice (side_s sourceSell) (price_s sourceSell)
      = worstAcceptablePrice \<lparr>asset_o = ''tokenX'', side_o = SELL, size_o = 30,
               worstAcceptablePrice = 19 / 50\<rparr>"
    by blast
  then have c1: "slippagePrice (side_s sourceSell) (price_s sourceSell) = 19 / 50"
    by simp
  note tb = slippage_price_formula [where opts = scriptOptions
      and held = "getPositionSharesForToken exampleHoldings" and trade = sourceBuy
      and spec = "\<lparr>asset_o = ''tokenX'', side_o = BUY, size_o = 30,
               worstAcceptablePrice = 21 / 50\<rparr>"]
  from gb m tb have "slippagePrice (side_s sourceBuy) (price_s sourceBuy)
      = worstAcceptablePrice \<lparr>asset_o = ''tokenX'', side_o = BUY, size_o = 30,
               worstAcceptablePrice = 21 / 50\<rparr>"
    by blast
  then have c2: "slippagePrice (side_s sourceBuy) (price_s sourceBuy) = 21 / 50"
    by simp
  from gb nn sb tb have "price_s sourceBuy
      \<le> worstAcceptablePrice \<lparr>asset_o = ''tokenX'', side_o = BUY, size_o = 30,
               worstAcceptablePrice = 21 / 50\<rparr>"
    by blast
  then have c3: "price_s sourceBuy \<le> (21 / 50 :: real)" by simp
  from gs gb c1 c2 c3 show ?thesis by blast
qed

subsection \<open>FIFO lots\<close>

lemma sellAll_stop: "\<not> toSell > 0 \<Longrightarrow> sellAll toSell p lots acc = (lots, acc)"
  by (subst sellAll.simps) simp

lemma sellAll_Nil: "sellAll toSell p [] acc = ([], acc)"
  by (subst sellAll.simps) simp

lemma sellAll_Cons:
  "toSell > 0 \<Longrightarrow> sellAll toSell p (lot # rest) acc =
     (let take = min (size_lot lot) toSell;
          lot' = lot\<lparr>size_lot := size_lot lot - take,
                     cost := cost lot - cost lot * (take / size_lot lot)\<rparr>
      in if size_lot lot - take \<le> 0
         then sellAll (toSell - take) p rest (acc + take * p)
         else sellAll (toSell - take) p (lot' # rest) (acc + take * p))"
  by (subst sellAll.simps) (simp add: Let_def)

lemma sellSub1_stop: "\<not> toSell > 0 \<Longrightarrow> sellSub1 toSell p lots acc = (lots, acc)"
  by (subst sellSub1.simps) simp

lemma sellSub1_Nil: "sellSub1 toSell p [] acc = ([], acc)"
  by (subst sellSub1.simps) simp

lemma sellSub1_Cons:
  "toSell > 0 \<Longrightarrow> sellSub1 toSell p (lot # rest) acc =
     (let take = min (size_lot lot) toSell;
          costTaken = cost lot * (take / size_lot lot);
          acc' = (if fromSub1Buy lot then (fst acc + costTaken, snd acc + take * p) else acc);
          lot' = lot\<lparr>size_lot := size_lot lot - take, cost := cost lot - costTaken\<rparr>
      in if size_lot lot - take \<le> 0
         then sellSub1 (toSell - take) p rest acc'
         else sellSub1 (toSell - take) p (lot' # rest) acc')"
  by (subst sellSub1.simps) (simp add: Let_def)

text \<open>
  A lot that is not used up ends the loop: then \<open>take = toSell\<close>, so nothing is left to
  sell. This is why the while loop agrees with the one-pass reading of the rule.
\<close>

lemma sellAll_spec:
  "sellAll toSell p lots acc =
     (fst (fifoSellSpec toSell p lots), acc + fst (snd (fifoSellSpec toSell p lots)))"
proof (induction lots arbitrary: toSell acc)
  case Nil
  show ?case by (simp add: sellAll_Nil)
next
  case (Cons lot rest)
  show ?case
  proof (cases "toSell > 0")
    case False
    then show ?thesis by (simp add: sellAll_stop)
  next
    case pos: True
    define take where "take = min (size_lot lot) toSell"
    show ?thesis
    proof (cases "size_lot lot - take \<le> 0")
      case True
      with pos show ?thesis
        by (simp add: sellAll_Cons Let_def take_def Cons.IH)
    next
      case False
      then have "take = toSell" by (auto simp: take_def min_def split: if_splits)
      with False pos show ?thesis
        by (simp add: sellAll_Cons Let_def take_def [symmetric] sellAll_stop)
    qed
  qed
qed

lemma sellSub1_lots:
  "fst (sellSub1 toSell p lots acc) = fst (fifoSellSpec toSell p lots)"
proof (induction lots arbitrary: toSell acc)
  case Nil
  show ?case by (simp add: sellSub1_Nil)
next
  case (Cons lot rest)
  show ?case
  proof (cases "toSell > 0")
    case False
    then show ?thesis by (simp add: sellSub1_stop)
  next
    case pos: True
    define take where "take = min (size_lot lot) toSell"
    show ?thesis
    proof (cases "size_lot lot - take \<le> 0")
      case True
      with pos show ?thesis
        by (simp add: sellSub1_Cons Let_def take_def Cons.IH)
    next
      case False
      then have "take = toSell" by (auto simp: take_def min_def split: if_splits)
      with False pos show ?thesis
        by (simp add: sellSub1_Cons Let_def take_def [symmetric] sellSub1_stop)
    qed
  qed
qed

text \<open>
  On a queue of lots of positive size the rule conserves value: the cost removed is what
  the queue lost, the proceeds are the price times the shares that left the queue, and no
  empty lot stays in the queue.
\<close>

lemma fifoSellSpec_conserve:
  "\<forall>l \<in> set lots. size_lot l > 0 \<Longrightarrow>
   totalCost lots - totalCost (fst (fifoSellSpec toSell p lots))
     = snd (snd (fifoSellSpec toSell p lots))
   \<and> fst (snd (fifoSellSpec toSell p lots)) =
       p * (totalShares lots - totalShares (fst (fifoSellSpec toSell p lots)))
   \<and> (\<forall>l \<in> set (fst (fifoSellSpec toSell p lots)). size_lot l > 0)"
proof (induction lots arbitrary: toSell)
  case Nil
  show ?case by (simp add: totalCost_def totalShares_def)
next
  case (Cons lot rest)
  then have IH: "\<And>t. totalCost rest - totalCost (fst (fifoSellSpec t p rest))
       = snd (snd (fifoSellSpec t p rest))
     \<and> fst (snd (fifoSellSpec t p rest)) =
       p * (totalShares rest - totalShares (fst (fifoSellSpec t p rest)))
     \<and> (\<forall>l \<in> set (fst (fifoSellSpec t p rest)). size_lot l > 0)"
    by simp
  from Cons.prems have sz: "size_lot lot > 0" by simp
  show ?case
  proof (cases "toSell > 0")
    case False
    then show ?thesis using Cons.prems by (simp add: totalCost_def totalShares_def)
  next
    case pos: True
    show ?thesis
    proof (cases "size_lot lot \<le> toSell")
      case True
      then have m: "min (size_lot lot) toSell = size_lot lot" by simp
      show ?thesis using pos sz IH [of "toSell - size_lot lot"]
        by (simp add: m Let_def totalCost_def totalShares_def algebra_simps)
    next
      case False
      then have m: "min (size_lot lot) toSell = toSell" by simp
      show ?thesis using pos sz False Cons.prems
        by (simp add: m Let_def totalCost_def totalShares_def algebra_simps)
    qed
  qed
qed

lemma fifoSellSpec_takes:
  "fst (snd (fifoSellSpec toSell p lots)) = takeProceeds p (fifoTakes toSell lots)
   \<and> snd (snd (fifoSellSpec toSell p lots)) = takeCost (fifoTakes toSell lots)"
  by (induction lots arbitrary: toSell) (simp_all add: takeProceeds_def takeCost_def Let_def)

lemma sellAll_takes:
  "sellAll toSell p lots acc =
     (fst (fifoSellSpec toSell p lots), acc + takeProceeds p (fifoTakes toSell lots))"
  by (simp add: sellAll_spec fifoSellSpec_takes)

text \<open>
  The sub-\$1 loop adds to its accumulators only what is taken from flagged lots.
\<close>

lemma sellSub1_takes:
  "snd (sellSub1 toSell p lots (c, r)) =
     (c + takeCost (flaggedTakes (fifoTakes toSell lots)),
      r + takeProceeds p (flaggedTakes (fifoTakes toSell lots)))"
proof (induction lots arbitrary: toSell c r)
  case Nil
  show ?case by (simp add: sellSub1_Nil takeCost_def takeProceeds_def flaggedTakes_def)
next
  case (Cons lot rest)
  show ?case
  proof (cases "toSell > 0")
    case False
    then show ?thesis
      by (simp add: sellSub1_stop takeCost_def takeProceeds_def flaggedTakes_def)
  next
    case pos: True
    define take where "take = min (size_lot lot) toSell"
    show ?thesis
    proof (cases "size_lot lot - take \<le> 0")
      case True
      have IH: "\<And>t c r. snd (sellSub1 t p rest (c, r)) =
          (c + sum_list (map (\<lambda>(lot, take). cost lot * (take / size_lot lot))
                 (filter (\<lambda>(lot, take). fromSub1Buy lot) (fifoTakes t rest))),
           r + sum_list (map (\<lambda>(lot, take). take * p)
                 (filter (\<lambda>(lot, take). fromSub1Buy lot) (fifoTakes t rest))))"
        using Cons.IH by (simp add: takeCost_def takeProceeds_def flaggedTakes_def)
      from pos True show ?thesis
        by (simp add: sellSub1_Cons Let_def take_def IH takeCost_def takeProceeds_def
              flaggedTakes_def)
    next
      case False
      then have "take = toSell" by (auto simp: take_def min_def split: if_splits)
      with False pos show ?thesis
        by (simp add: sellSub1_Cons Let_def take_def [symmetric] sellSub1_stop
              takeCost_def takeProceeds_def flaggedTakes_def)
    qed
  qed
qed

lemma fifoExample_takes:
  "fifoTakes 15 fifoExampleLots
     = [(\<lparr>size_lot = 10, cost = 5\<rparr>, 10), (\<lparr>size_lot = 10, cost = 6\<rparr>, 5)]"
  by (simp add: fifoExampleLots_def Let_def)

lemma fifoExample_run:
  "lotsAllByAsset (runAll fifoExampleTrades) ''X'' = Some [\<lparr>size_lot = 5, cost = 3\<rparr>]
   \<and> realizedProceedsAll (runAll fifoExampleTrades) = 21 / 2
   \<and> totalCostAll (runAll fifoExampleTrades) = 11"
  by (simp add: runAll_def stepAll_def roiAllInit_def fifoExampleTrades_def assetKey_def
        truthy_def sellAll_Cons sellAll_stop Let_def)

lemma fifoExample_runSub1:
  "lotsByAsset (runSub1 fifoExampleTrades) ''X''
     = Some [\<lparr>size_lot = 5, cost = 3, fromSub1Buy = False\<rparr>]
   \<and> realizedSub1Cost (runSub1 fifoExampleTrades) = 0
   \<and> realizedSub1Proceeds (runSub1 fifoExampleTrades) = 0"
  by (simp add: runSub1_def stepSub1_def roiSub1Init_def fifoExampleTrades_def assetKey_def
        truthy_def sellSub1_Cons sellSub1_stop MIN_VALUE_USD_def Let_def)

lemma sub1Example_runSub1:
  "lotsByAsset (runSub1 sub1ExampleTrades) ''X''
     = Some [\<lparr>size_lot = 5, cost = 3 / 10, fromSub1Buy = True\<rparr>]
   \<and> realizedSub1Cost (runSub1 sub1ExampleTrades) = 8 / 10
   \<and> realizedSub1Proceeds (runSub1 sub1ExampleTrades) = 105 / 100"
  by (simp add: runSub1_def stepSub1_def roiSub1Init_def sub1ExampleTrades_def assetKey_def
        truthy_def sellSub1_Cons sellSub1_stop MIN_VALUE_USD_def Let_def)

text \<open>
  The claim that a sell accumulates the cost removed, and with it a realized P&L, fails on
  the claim's own scenario. The sub-\$1 pass is the only one that keeps a cost figure,
  and it counts flagged lots only: the lots of cost \$5 and \$6 are not flagged, so after
  the sell of 15 shares it has recorded no cost and no proceeds, while the rule's cost
  removed is \$8 and its proceeds are \$10.50.
\<close>

theorem fifo_cost_not_accumulated_counterexample:
  "realizedSub1Cost (runSub1 fifoExampleTrades) = 0
   \<and> realizedSub1Proceeds (runSub1 fifoExampleTrades) = 0
   \<and> takeCost (fifoTakes 15 fifoExampleLots) = 8
   \<and> takeProceeds (7 / 10) (fifoTakes 15 fifoExampleLots) = 21 / 2"
  using fifoExample_runSub1
  by (simp add: fifoExample_takes takeCost_def takeProceeds_def)

text \<open>
  Claim C1, amended. Both sell loops of the deep dive follow the FIFO rule: the queue
  after a sell is that of the rule (lots taken from the front, \<open>take = min lot.size
  remaining\<close>, cost reduced by \<open>cost * (take / lot.size)\<close>, used-up lots dropped). The
  total-ROI loop adds the proceeds \<open>sum (take * price)\<close> over all lots consumed and keeps
  no cost figure; the sub-\$1 loop adds cost removed and proceeds over the flagged lots
  consumed only. On lots of positive size the rule's cost removed is the cost that left
  the queue, and no empty lot remains. After buys of 10 shares at \$0.50 and \$0.60 a sell
  of 15 at \$0.70 takes 10 from the first lot and 5 from the second and leaves the single
  lot (5, \$3); the total-ROI pass records proceeds \$10.50, the cost of the queue falls
  by \$8 (proceeds less that cost are \$2.50), and the sub-\$1 pass records nothing. At a
  tenth of the prices both lots are flagged, and the sub-\$1 pass records cost removed
  \$0.80 and proceeds \$1.05.
\<close>

theorem fifo_lot_accounting:
  "sellAll toSell p lots acc =
     (fst (fifoSellSpec toSell p lots), acc + takeProceeds p (fifoTakes toSell lots))
   \<and> fst (sellSub1 toSell p flots (c, r)) = fst (fifoSellSpec toSell p flots)
   \<and> ((\<forall>l \<in> set flots. size_lot l \<noteq> 0) \<longrightarrow>
        snd (sellSub1 toSell p flots (c, r)) =
          (c + takeCost (flaggedTakes (fifoTakes toSell flots)),
           r + takeProceeds p (flaggedTakes (fifoTakes toSell flots))))
   \<and> ((\<forall>l \<in> set lots. size_lot l > 0) \<longrightarrow>
        totalCost lots - totalCost (fst (fifoSellSpec toSell p lots))
          = takeCost (fifoTakes toSell lots)
        \<and> (\<forall>l \<in> set (fst (fifoSellSpec toSell p lots)). size_lot l > 0))
   \<and> fifoTakes 15 fifoExampleLots
        = [(\<lparr>size_lot = 10, cost = 5\<rparr>, 10), (\<lparr>size_lot = 10, cost = 6\<rparr>, 5)]
   \<and> lotsAllByAsset (runAll fifoExampleTrades) ''X'' = Some [\<lparr>size_lot = 5, cost = 3\<rparr>]
   \<and> realizedProceedsAll (runAll fifoExampleTrades) = 21 / 2
   \<and> totalCostAll (runAll fifoExampleTrades) - totalCost [\<lparr>size_lot = 5, cost = 3\<rparr>] = 8
   \<and> realizedProceedsAll (runAll fifoExampleTrades)
        - (totalCostAll (runAll fifoExampleTrades) - totalCost [\<lparr>size_lot = 5, cost = 3\<rparr>])
        = 5 / 2
   \<and> lotsByAsset (runSub1 fifoExampleTrades) ''X''
        = Some [\<lparr>size_lot = 5, cost = 3, fromSub1Buy = False\<rparr>]
   \<and> realizedSub1Cost (runSub1 fifoExampleTrades) = 0
   \<and> realizedSub1Proceeds (runSub1 fifoExampleTrades) = 0
   \<and> lotsByAsset (runSub1 sub1ExampleTrades) ''X''
        = Some [\<lparr>size_lot = 5, cost = 3 / 10, fromSub1Buy = True\<rparr>]
   \<and> realizedSub1Cost (runSub1 sub1ExampleTrades) = 8 / 10
   \<and> realizedSub1Proceeds (runSub1 sub1ExampleTrades) = 105 / 100"
proof -
  have a: "sellAll toSell p lots acc =
     (fst (fifoSellSpec toSell p lots), acc + takeProceeds p (fifoTakes toSell lots))"
    by (rule sellAll_takes)
  have b: "fst (sellSub1 toSell p flots (c, r)) = fst (fifoSellSpec toSell p flots)"
    by (rule sellSub1_lots)
  have c: "(\<forall>l \<in> set flots. size_lot l \<noteq> 0) \<longrightarrow>
        snd (sellSub1 toSell p flots (c, r)) =
          (c + takeCost (flaggedTakes (fifoTakes toSell flots)),
           r + takeProceeds p (flaggedTakes (fifoTakes toSell flots)))"
    by (simp add: sellSub1_takes)
  have d: "(\<forall>l \<in> set lots. size_lot l > 0) \<longrightarrow>
        totalCost lots - totalCost (fst (fifoSellSpec toSell p lots))
          = takeCost (fifoTakes toSell lots)
        \<and> (\<forall>l \<in> set (fst (fifoSellSpec toSell p lots)). size_lot l > 0)"
    using fifoSellSpec_conserve [of lots toSell p] fifoSellSpec_takes [of toSell p lots]
    by simp
  have e: "totalCostAll (runAll fifoExampleTrades) - totalCost [\<lparr>size_lot = 5, cost = 3\<rparr>] = 8"
    using fifoExample_run by (simp add: totalCost_def)
  have f: "realizedProceedsAll (runAll fifoExampleTrades)
        - (totalCostAll (runAll fifoExampleTrades) - totalCost [\<lparr>size_lot = 5, cost = 3\<rparr>])
        = 5 / 2"
    using fifoExample_run by (simp add: totalCost_def)
  from fifoExample_run have g: "lotsAllByAsset (runAll fifoExampleTrades) ''X''
      = Some [\<lparr>size_lot = 5, cost = 3\<rparr>]"
    and h: "realizedProceedsAll (runAll fifoExampleTrades) = 21 / 2"
    by blast+
  from fifoExample_runSub1 have i: "lotsByAsset (runSub1 fifoExampleTrades) ''X''
        = Some [\<lparr>size_lot = 5, cost = 3, fromSub1Buy = False\<rparr>]"
    and j: "realizedSub1Cost (runSub1 fifoExampleTrades) = 0"
    and k: "realizedSub1Proceeds (runSub1 fifoExampleTrades) = 0"
    by blast+
  from sub1Example_runSub1 have l: "lotsByAsset (runSub1 sub1ExampleTrades) ''X''
        = Some [\<lparr>size_lot = 5, cost = 3 / 10, fromSub1Buy = True\<rparr>]"
    and m: "realizedSub1Cost (runSub1 sub1ExampleTrades) = 8 / 10"
    and n: "realizedSub1Proceeds (runSub1 sub1ExampleTrades) = 105 / 100"
    by blast+
  show ?thesis
    by (intro conjI) (rule a b c d e f g h i j k l m n fifoExample_takes)+
qed

theorem fifo_lot_accounting_witness:
  "list_all (\<lambda>l. size_lot l \<noteq> 0) sub1ExampleLots
   \<and> list_all (\<lambda>l. size_lot l > 0) fifoExampleLots
   \<and> snd (sellSub1 15 (7 / 100) sub1ExampleLots (0, 0)) = (8 / 10, 105 / 100)
   \<and> totalCost fifoExampleLots - totalCost (fst (fifoSellSpec 15 (7 / 10) fifoExampleLots))
        = 8"
proof -
  have h1: "\<forall>l \<in> set sub1ExampleLots. size_lot l \<noteq> 0"
    by (simp add: sub1ExampleLots_def)
  have h2: "\<forall>l \<in> set fifoExampleLots. size_lot l > 0"
    by (simp add: fifoExampleLots_def)
  note t = fifo_lot_accounting [of 15 "7 / 100" fifoExampleLots 0 sub1ExampleLots 0 0]
  note u = fifo_lot_accounting [of 15 "7 / 10" fifoExampleLots 0 sub1ExampleLots 0 0]
  from t h1 have "snd (sellSub1 15 (7 / 100) sub1ExampleLots (0, 0)) =
          (0 + takeCost (flaggedTakes (fifoTakes 15 sub1ExampleLots)),
           0 + takeProceeds (7 / 100) (flaggedTakes (fifoTakes 15 sub1ExampleLots)))"
    by blast
  then have f: "snd (sellSub1 15 (7 / 100) sub1ExampleLots (0, 0)) = (8 / 10, 105 / 100)"
    by (simp add: sub1ExampleLots_def takeCost_def takeProceeds_def flaggedTakes_def Let_def)
  from u h2 have "totalCost fifoExampleLots
      - totalCost (fst (fifoSellSpec 15 (7 / 10) fifoExampleLots))
      = takeCost (fifoTakes 15 fifoExampleLots)"
    by blast
  then have g: "totalCost fifoExampleLots
      - totalCost (fst (fifoSellSpec 15 (7 / 10) fifoExampleLots)) = 8"
    by (simp add: fifoExample_takes takeCost_def)
  from h1 h2 f g show ?thesis by (simp add: list_all_iff)
qed

subsection \<open>Polling: order of the poll results\<close>

lemma promiseAll_Inr: "promiseAll (map Inr xs) = Inr xs"
  by (induction xs) auto

lemma promiseAll_Inl: "(\<exists>r \<in> set rs. isl r) \<longleftrightarrow> isl (promiseAll rs)"
  by (induction rs) (auto split: sum.splits)

lemma sortByTimestamp_desc:
  "sorted_wrt (\<lambda>a b. timestamp a \<ge> timestamp b) (sortByTimestamp as)"
proof -
  have "sorted (map (\<lambda>a. - timestamp a) (sortByTimestamp as))"
    by (simp add: sortByTimestamp_def)
  then show ?thesis by (simp add: sorted_map)
qed

lemma sortByTimestamp_mset: "mset (sortByTimestamp as) = mset as"
  by (simp add: sortByTimestamp_def)

lemma filter_eq_distinct: "distinct xs \<Longrightarrow> k \<in> set xs \<Longrightarrow> filter (\<lambda>x. k = x) xs = [k]"
proof (induction xs)
  case Nil
  then show ?case by simp
next
  case (Cons a xs)
  show ?case
  proof (cases "k = a")
    case True
    with Cons.prems have "filter (\<lambda>x. k = x) xs = []" by (auto simp: filter_empty_conv)
    with True show ?thesis by simp
  next
    case False
    with Cons show ?thesis by simp
  qed
qed

lemma sortByTimestamp_unique:
  assumes "mset xs = mset ys" and "distinct (map timestamp xs)"
  shows "sortByTimestamp xs = sortByTimestamp ys"
proof -
  let ?f = "\<lambda>a. - timestamp a"
  have inj0: "inj_on timestamp (set xs)"
    using assms(2) by (simp add: distinct_map)
  have inj: "\<And>a b. a \<in> set xs \<Longrightarrow> b \<in> set xs \<Longrightarrow> ?f a = ?f b \<Longrightarrow> a = b"
    using inj0 by (auto dest: inj_onD)
  have dx: "distinct xs" using assms(2) by (simp add: distinct_map)
  have dy: "distinct ys" using dx assms(1) by (metis mset_eq_imp_distinct_iff)
  have sxy: "set xs = set ys" using assms(1) by (rule mset_eq_setD)
  have "sort_key ?f ys = sort_key ?f xs"
  proof (rule properties_for_sort_key)
    show "mset (sort_key ?f xs) = mset ys" using assms(1) by simp
    show "sorted (map ?f (sort_key ?f xs))" by simp
    fix k assume "k \<in> set (sort_key ?f xs)"
    then have k: "k \<in> set xs" by simp
    have "filter (\<lambda>x. ?f k = ?f x) (sort_key ?f xs) = filter (\<lambda>x. k = x) (sort_key ?f xs)"
      using inj k by (intro filter_cong) auto
    moreover have "filter (\<lambda>x. ?f k = ?f x) ys = filter (\<lambda>x. k = x) ys"
      using inj k sxy by (intro filter_cong) auto
    moreover have "filter (\<lambda>x. k = x) (sort_key ?f xs) = [k]"
      using dx k by (simp add: filter_eq_distinct)
    moreover have "filter (\<lambda>x. k = x) ys = [k]"
      using dy k sxy by (simp add: filter_eq_distinct)
    ultimately show "filter (\<lambda>x. ?f k = ?f x) (sort_key ?f xs) = filter (\<lambda>x. ?f k = ?f x) ys"
      by simp
  qed
  then show ?thesis by (simp add: sortByTimestamp_def)
qed

text \<open>
  The claim of an ascending order fails on two wallets with one trade each: the later
  trade comes first.
\<close>

theorem poll_not_ascending_counterexample:
  "fst (pollTargetWallets twoWalletApi 10 0 [''0xw1'', ''0xw2'']) = Inr [act2, act1]
   \<and> \<not> sorted (map timestamp [act2, act1])"
  by (simp add: pollTargetWallets_def twoWalletApi_def sortByTimestamp_def act1_def act2_def)

text \<open>
  Claim C4, amended. When every per-wallet query of a tick fulfils, \<^verbatim>\<open>pollTargetWallets\<close>
  returns the flattened results sorted by timestamp in descending order (newest first):
  the result is a permutation of the flattened results in which every trade is at least
  as recent as the ones after it. When no two trades share a timestamp the order depends
  only on which trades were observed, so two runs observing the same trades hand them
  downstream in the same order.
\<close>

theorem poll_flatten_sort_descending:
  "map (\<lambda>wallet. getActivity wallet lastCheckTimestamp) targetWallets = map Inr results \<Longrightarrow>
     fst (pollTargetWallets getActivity now lastCheckTimestamp targetWallets)
       = Inr (sortByTimestamp (concat results))
     \<and> sorted_wrt (\<lambda>a b. timestamp a \<ge> timestamp b) (sortByTimestamp (concat results))
     \<and> mset (sortByTimestamp (concat results)) = mset (concat results)
     \<and> (mset (concat results') = mset (concat results)
          \<and> distinct (map timestamp (concat results))
          \<longrightarrow> sortByTimestamp (concat results') = sortByTimestamp (concat results))"
proof -
  assume a: "map (\<lambda>wallet. getActivity wallet lastCheckTimestamp) targetWallets = map Inr results"
  have "fst (pollTargetWallets getActivity now lastCheckTimestamp targetWallets)
       = Inr (sortByTimestamp (concat results))"
    by (simp add: pollTargetWallets_def a promiseAll_Inr)
  moreover have "mset (concat results') = mset (concat results)
          \<and> distinct (map timestamp (concat results))
          \<longrightarrow> sortByTimestamp (concat results') = sortByTimestamp (concat results)"
    using sortByTimestamp_unique [of "concat results" "concat results'"] by auto
  ultimately show ?thesis
    using sortByTimestamp_desc [of "concat results"] sortByTimestamp_mset [of "concat results"]
    by blast
qed

theorem poll_flatten_sort_descending_witness:
  "fst (pollTargetWallets twoWalletApi 10 0 [''0xw1'', ''0xw2''])
     = Inr (sortByTimestamp [act1, act2])
   \<and> sortByTimestamp [act2, act1] = sortByTimestamp [act1, act2]
   \<and> sortByTimestamp [act1, act2] = [act2, act1]"
proof -
  have h: "map (\<lambda>wallet. twoWalletApi wallet 0) [''0xw1'', ''0xw2''] = map Inr [[act1], [act2]]"
    by (simp add: twoWalletApi_def)
  have m: "mset (concat [[act2], [act1]]) = mset (concat [[act1], [act2]])
      \<and> distinct (map timestamp (concat [[act1], [act2]]))"
    by (simp add: act1_def act2_def)
  have e: "sortByTimestamp [act1, act2] = [act2, act1]"
    by (simp add: sortByTimestamp_def act1_def act2_def)
  from poll_flatten_sort_descending [where getActivity = twoWalletApi
      and lastCheckTimestamp = 0 and targetWallets = "[''0xw1'', ''0xw2'']"
      and results = "[[act1], [act2]]" and results' = "[[act2], [act1]]" and now = 10] h m e
  show ?thesis by simp
qed

subsection \<open>One failing wallet\<close>

lemma tick_aborts_on_rejection:
  assumes "\<exists>wallet \<in> set targetWallets. isl (getActivity wallet lastCheckTimestamp)"
  shows "delivered (copyTradingTick getActivity executeCopyTrade now lastCheckTimestamp
            targetWallets) = []"
    and "pollError (copyTradingTick getActivity executeCopyTrade now lastCheckTimestamp
            targetWallets) \<noteq> None"
proof -
  from assms have "isl (promiseAll (map (\<lambda>wallet. getActivity wallet lastCheckTimestamp)
      targetWallets))"
    by (subst promiseAll_Inl [symmetric]) auto
  then obtain e where "promiseAll (map (\<lambda>wallet. getActivity wallet lastCheckTimestamp)
      targetWallets) = Inl e"
    by (auto simp: isl_def)
  then show "delivered (copyTradingTick getActivity executeCopyTrade now lastCheckTimestamp
            targetWallets) = []"
    and "pollError (copyTradingTick getActivity executeCopyTrade now lastCheckTimestamp
            targetWallets) \<noteq> None"
    by (simp_all add: copyTradingTick_def pollTargetWallets_def)
qed

text \<open>
  Claim C5. With two watched wallets, the query of the first rejecting and the second
  returning one BUY, the tick of the implementation document catches the rejection and
  logs it, so nothing propagates to the timer; but \<^verbatim>\<open>Promise.all\<close> has rejected as a
  whole, and the trade of the healthy wallet is not handed downstream in that tick. When
  both queries fulfil, the same trade is delivered.
\<close>

theorem tick_one_wallet_fails:
  "copyTradingTick failingApi executeOk 10 0 [''0xw1'', ''0xw2'']
     = \<lparr>delivered = [], pollError = Some (Error ''fetch failed''), lastCheck = 0\<rparr>
   \<and> copyTradingTick twoWalletApi executeOk 10 0 [''0xw1'', ''0xw2'']
     = \<lparr>delivered = [act2, act1], pollError = None, lastCheck = 10\<rparr>"
  by (simp add: copyTradingTick_def pollTargetWallets_def failingApi_def twoWalletApi_def
        sortByTimestamp_def executeOk_def act1_def act2_def)

subsection \<open>Deduplication\<close>

lemma cleanup_small: "length xs \<le> 1000 \<Longrightarrow> cleanup xs = xs"
  by (simp add: cleanup_def)

lemma length_cleanup: "length xs \<le> 1001 \<Longrightarrow> length (cleanup xs) \<le> 1000"
  by (auto simp: cleanup_def)

lemma distinct_cleanup: "distinct xs \<Longrightarrow> distinct (cleanup xs)"
  by (simp add: cleanup_def)

lemma dedupStep_seen:
  "transactionHash a \<in> set seen \<Longrightarrow> dedupStep (seen, out) a = (seen, out)"
  by (simp add: dedupStep_def)

lemma dedupStep_new:
  "transactionHash a \<notin> set seen \<Longrightarrow>
     dedupStep (seen, out) a = (cleanup (seen @ [transactionHash a]), out @ [a])"
  by (simp add: dedupStep_def)

lemma dedupStep_inv:
  "distinct seen \<Longrightarrow> length seen \<le> 1000 \<Longrightarrow>
     distinct (fst (dedupStep (seen, out) a)) \<and> length (fst (dedupStep (seen, out) a)) \<le> 1000"
  by (cases "transactionHash a \<in> set seen")
     (simp_all add: dedupStep_seen dedupStep_new distinct_cleanup length_cleanup)

lemma dedupFold_inv:
  "distinct seen \<Longrightarrow> length seen \<le> 1000 \<Longrightarrow>
     distinct (fst (foldl dedupStep (seen, out) acts))
     \<and> length (fst (foldl dedupStep (seen, out) acts)) \<le> 1000"
proof (induction acts arbitrary: seen out)
  case Nil
  then show ?case by simp
next
  case (Cons a acts)
  obtain s h where sh: "dedupStep (seen, out) a = (s, h)" by (cases "dedupStep (seen, out) a")
  with dedupStep_inv [OF Cons.prems, of out a] have "distinct s" "length s \<le> 1000" by simp_all
  from Cons.IH [OF this] sh show ?case by simp
qed

text \<open>No eviction while at most 1000 different hashes are known.\<close>

lemma dedupFold_no_eviction:
  "distinct seen \<Longrightarrow> card (set seen \<union> transactionHash ` set acts) \<le> 1000 \<Longrightarrow>
     (\<exists>new. snd (foldl dedupStep (seen, out) acts) = out @ new
        \<and> distinct (map transactionHash new)
        \<and> transactionHash ` set new \<inter> set seen = {})"
proof (induction acts arbitrary: seen out)
  case Nil
  then show ?case by simp
next
  case (Cons a acts)
  let ?h = "transactionHash a"
  show ?case
  proof (cases "?h \<in> set seen")
    case True
    then have "set seen \<union> transactionHash ` set (a # acts) = set seen \<union> transactionHash ` set acts"
      by auto
    with Cons.prems have "card (set seen \<union> transactionHash ` set acts) \<le> 1000" by simp
    from Cons.IH [OF Cons.prems(1) this, of out] True show ?thesis
      by (simp add: dedupStep_seen)
  next
    case False
    have eq: "set (seen @ [?h]) \<union> transactionHash ` set acts
        = set seen \<union> transactionHash ` set (a # acts)" by auto
    have "length (seen @ [?h]) = card (set (seen @ [?h]))"
      using Cons.prems(1) False by (simp add: distinct_card)
    also have "\<dots> \<le> card (set seen \<union> transactionHash ` set (a # acts))"
      by (rule card_mono) auto
    finally have len: "length (seen @ [?h]) \<le> 1000" using Cons.prems(2) by simp
    have d: "distinct (seen @ [?h])" using Cons.prems(1) False by simp
    have c: "card (set (seen @ [?h]) \<union> transactionHash ` set acts) \<le> 1000"
      using Cons.prems(2) eq by simp
    from Cons.IH [OF d c, of "out @ [a]"] obtain new where
      new: "snd (foldl dedupStep (seen @ [?h], out @ [a]) acts) = (out @ [a]) @ new"
        "distinct (map transactionHash new)"
        "transactionHash ` set new \<inter> set (seen @ [?h]) = {}"
      by blast
    have "snd (foldl dedupStep (seen, out) (a # acts)) = out @ (a # new)"
      using False len new(1) by (simp add: dedupStep_new cleanup_small)
    moreover have "distinct (map transactionHash (a # new))"
      using new(2,3) by auto
    moreover have "transactionHash ` set (a # new) \<inter> set seen = {}"
      using new(3) False by auto
    ultimately show ?thesis by blast
  qed
qed

text \<open>A hash stays in the set while at most 500 further trades are processed after its insertion.\<close>

lemma dedupFold_window:
  "length seen \<le> 1000 \<Longrightarrow> seen = pre @ h # post \<Longrightarrow> length post + length ys \<le> 500 \<Longrightarrow>
     h \<in> set (fst (foldl dedupStep (seen, out) ys))"
proof (induction ys arbitrary: seen out pre post)
  case Nil
  then show ?case by simp
next
  case (Cons a ys)
  let ?x = "transactionHash a"
  show ?case
  proof (cases "?x \<in> set seen")
    case True
    from Cons.prems have "length post + length ys \<le> 500" by simp
    from Cons.IH [OF Cons.prems(1,2) this, of out] True show ?thesis
      by (simp add: dedupStep_seen)
  next
    case False
    have lp: "length post + 1 + length ys \<le> 500" using Cons.prems(3) by simp
    show ?thesis
    proof (cases "length (seen @ [?x]) > 1000")
      case big: True
      with Cons.prems(1) have "length seen = 1000" by simp
      with Cons.prems(2) lp have "500 \<le> length pre" by simp
      then have "drop 500 (seen @ [?x]) = drop 500 pre @ h # (post @ [?x])"
        using Cons.prems(2) by simp
      with big have s: "cleanup (seen @ [?x]) = drop 500 pre @ h # (post @ [?x])"
        by (simp add: cleanup_def)
      have l: "length (cleanup (seen @ [?x])) \<le> 1000"
        using Cons.prems(1) by (intro length_cleanup) simp
      have "length (post @ [?x]) + length ys \<le> 500" using lp by simp
      from Cons.IH [OF l s this, of "out @ [a]"] False show ?thesis
        by (simp add: dedupStep_new)
    next
      case small: False
      then have s: "cleanup (seen @ [?x]) = pre @ h # (post @ [?x])"
        using Cons.prems(2) by (simp add: cleanup_def)
      have l: "length (cleanup (seen @ [?x])) \<le> 1000"
        using Cons.prems(1) by (intro length_cleanup) simp
      have "length (post @ [?x]) + length ys \<le> 500" using lp by simp
      from Cons.IH [OF l s this, of "out @ [a]"] False show ?thesis
        by (simp add: dedupStep_new)
    qed
  qed
qed

lemma dedup_no_second_handling:
  assumes "length seen \<le> 1000" and "transactionHash a \<notin> set seen"
    and "length ys \<le> 500" and "transactionHash b = transactionHash a"
  shows "dedupStep (foldl dedupStep (dedupStep (seen, out) a) ys) b
           = foldl dedupStep (dedupStep (seen, out) a) ys"
proof -
  let ?h = "transactionHash a"
  let ?s1 = "cleanup (seen @ [?h])"
  have step: "dedupStep (seen, out) a = (?s1, out @ [a])"
    using assms(2) by (simp add: dedupStep_new)
  have l: "length ?s1 \<le> 1000" using assms(1) by (intro length_cleanup) simp
  have "\<exists>pre. ?s1 = pre @ [?h]"
    by (cases "length (seen @ [?h]) > 1000") (auto simp: cleanup_def)
  then obtain pre where pre: "?s1 = pre @ ?h # []" by auto
  have "?h \<in> set (fst (foldl dedupStep (?s1, out @ [a]) ys))"
    using dedupFold_window [OF l pre, of ys "out @ [a]"] assms(3) by simp
  then show ?thesis
    using step assms(4) by (cases "foldl dedupStep (?s1, out @ [a]) ys") (simp add: dedupStep_seen)
qed

lemma inj_hashOf: "hashOf m = hashOf n \<Longrightarrow> m = n"
proof -
  assume "hashOf m = hashOf n"
  then have "length (hashOf m) = length (hashOf n)" by simp
  then show ?thesis by (simp add: hashOf_def)
qed

lemma hash_activityOf: "transactionHash (activityOf n) = hashOf n"
  by (simp add: activityOf_def)

lemma flood_prefix:
  "n \<le> 1000 \<Longrightarrow> foldl dedupStep ([], []) (map activityOf [0..<n])
      = (map hashOf [0..<n], map activityOf [0..<n])"
proof (induction n)
  case 0
  show ?case by simp
next
  case (Suc n)
  then have IH: "foldl dedupStep ([], []) (map activityOf [0..<n])
      = (map hashOf [0..<n], map activityOf [0..<n])" by simp
  have new: "transactionHash (activityOf n) \<notin> set (map hashOf [0..<n])"
    by (auto simp del: upt_rec_numeral simp: hash_activityOf dest: inj_hashOf)
  show ?case using Suc.prems
    by (simp add: IH dedupStep_new [OF new] cleanup_small hash_activityOf)
qed

lemma flood_1001:
  "foldl dedupStep ([], []) (map activityOf [0..<1001])
      = (map hashOf [500..<1001], map activityOf [0..<1001])"
proof -
  have u: "[0..<1001] = [0..<1000] @ [1000]"
    using upt_Suc_append [of 0 1000] by simp
  have new: "transactionHash (activityOf 1000) \<notin> set (map hashOf [0..<1000])"
    by (auto simp del: upt_rec_numeral simp: hash_activityOf dest: inj_hashOf)
  have "cleanup (map hashOf [0..<1000] @ [hashOf 1000]) = drop 500 (map hashOf [0..<1001])"
    by (simp add: cleanup_def u)
  also have "\<dots> = map hashOf [500..<1001]"
    by (simp del: upt_rec_numeral add: drop_map drop_upt)
  finally have c: "cleanup (map hashOf [0..<1000] @ [hashOf 1000]) = map hashOf [500..<1001]" .
  show ?thesis
    apply (subst u)
    apply (simp only: map_append foldl_append flood_prefix [of 1000, simplified])
    apply (simp del: upt_rec_numeral add: dedupStep_new [OF new] c hash_activityOf)
    apply (simp del: upt_rec_numeral add: u)
    done
qed

lemma flood_result: "snd (dedupRun [] floodRun) = floodRun"
proof -
  have new: "transactionHash (activityOf 0) \<notin> set (map hashOf [500..<1001])"
    by (auto simp del: upt_rec_numeral simp: hash_activityOf dest: inj_hashOf)
  show ?thesis
    by (simp del: upt_rec_numeral add: dedupRun_def floodRun_def flood_1001 dedupStep_new [OF new])
qed

lemma flood_count: "count_list floodRun (activityOf 0) = 2"
proof -
  have inj: "inj activityOf"
    by (rule injI) (auto simp: activityOf_def)
  have u: "[0..<1001] = 0 # [Suc 0..<1001]"
    by (rule upt_conv_Cons) simp
  have "count_list [0..<1001] (0::nat) = 1"
    by (subst u) (simp del: upt_rec_numeral)
  then have "count_list (map activityOf [0..<1001]) (activityOf 0) = 1"
    by (simp only: count_list_map_conv [OF inj])
  then show ?thesis by (simp del: upt_rec_numeral add: floodRun_def)
qed

text \<open>
  The claim that a hash handed over twice is handled at most once fails once the hash has
  been evicted: after 1001 different hashes the first one is no longer in the set, and
  the trade that carries it is handled a second time.
\<close>

theorem dedup_twice_counterexample:
  "count_list (map transactionHash (snd (dedupRun [] floodRun))) (hashOf 0) = 2"
proof -
  have inj: "inj hashOf"
    by (rule injI) (rule inj_hashOf)
  have m: "map transactionHash floodRun = map hashOf [0..<1001] @ [hashOf 0]"
    by (simp del: upt_rec_numeral add: floodRun_def hash_activityOf comp_def)
  have u: "[0..<1001] = 0 # [Suc 0..<1001]"
    by (rule upt_conv_Cons) simp
  have "count_list [0..<1001] (0::nat) = 1"
    by (subst u) (simp del: upt_rec_numeral)
  then have "count_list (map hashOf [0..<1001]) (hashOf 0) = 1"
    by (simp only: count_list_map_conv [OF inj])
  then show ?thesis by (simp del: upt_rec_numeral add: flood_result m)
qed

text \<open>
  Claim C3, amended. A trade whose hash is in the seen set is not handled and leaves the
  set as it is; a trade with a new hash is handled once and its hash is appended, and
  when that makes the set exceed 1000 entries exactly the 500 earliest-inserted hashes
  are dropped, so the survivors are the most recently inserted ones. Starting from at
  most 1000 distinct hashes the set holds at most 1000 distinct hashes after every run.
  A run with at most 1000 different hashes handles every hash at most once, and in any
  run a hash that has just been handled is not handled again during the next 500 trades.
\<close>

theorem dedup_bounded_fifo:
  "(transactionHash a \<in> set seen \<longrightarrow> dedupStep (seen, out) a = (seen, out))
   \<and> (transactionHash a \<notin> set seen \<longrightarrow>
        dedupStep (seen, out) a =
          (if length seen \<ge> 1000 then drop 500 (seen @ [transactionHash a])
           else seen @ [transactionHash a], out @ [a]))
   \<and> (distinct seen \<and> length seen \<le> 1000 \<longrightarrow>
        distinct (fst (dedupRun seen acts)) \<and> length (fst (dedupRun seen acts)) \<le> 1000)
   \<and> (card (transactionHash ` set acts) \<le> 1000 \<longrightarrow>
        distinct (map transactionHash (snd (dedupRun [] acts))))
   \<and> (length seen \<le> 1000 \<and> transactionHash a \<notin> set seen \<and> length ys \<le> 500
        \<and> transactionHash b = transactionHash a \<longrightarrow>
        dedupStep (foldl dedupStep (dedupStep (seen, out) a) ys) b
          = foldl dedupStep (dedupStep (seen, out) a) ys)"
proof -
  have c2: "transactionHash a \<notin> set seen \<longrightarrow>
        dedupStep (seen, out) a =
          (if length seen \<ge> 1000 then drop 500 (seen @ [transactionHash a])
           else seen @ [transactionHash a], out @ [a])"
    by (auto simp: dedupStep_new cleanup_def)
  have c4: "card (transactionHash ` set acts) \<le> 1000 \<longrightarrow>
        distinct (map transactionHash (snd (dedupRun [] acts)))"
    using dedupFold_no_eviction [of "[]" acts "[]"] by (auto simp: dedupRun_def)
  have c3: "distinct seen \<and> length seen \<le> 1000 \<longrightarrow>
        distinct (fst (dedupRun seen acts)) \<and> length (fst (dedupRun seen acts)) \<le> 1000"
    using dedupFold_inv [of seen "[]" acts] by (simp add: dedupRun_def)
  show ?thesis
    using dedupStep_seen [of a seen out] c2 c3 c4
      dedup_no_second_handling [of seen a ys b out]
    by blast
qed

theorem dedup_bounded_fifo_witness:
  "distinct (map transactionHash (snd (dedupRun [] [act1, act2, act1])))
   \<and> dedupStep (foldl dedupStep (dedupStep ([], []) act1) [act2]) act1
        = foldl dedupStep (dedupStep ([], []) act1) [act2]
   \<and> length (fst (dedupRun [] [act1, act2, act1])) \<le> 1000"
proof -
  have "card (transactionHash ` set [act1, act2, act1]) \<le> card (set [act1, act2, act1])"
    by (rule card_image_le) simp
  also have "\<dots> \<le> length [act1, act2, act1]"
    by (rule card_length)
  finally have h1: "card (transactionHash ` set [act1, act2, act1]) \<le> 1000"
    by simp
  have h2: "length ([] :: string list) \<le> 1000 \<and> transactionHash act1 \<notin> set []
      \<and> length [act2] \<le> 500 \<and> transactionHash act1 = transactionHash act1"
    by simp
  have h3: "distinct ([] :: string list) \<and> length ([] :: string list) \<le> 1000"
    by simp
  from dedup_bounded_fifo [of act1 "[]" "[]" "[act1, act2, act1]" "[act2]" act1] h1 h2 h3
  show ?thesis by blast
qed

subsection \<open>Order confirmation\<close>

lemma waitLoop_props:
  "waitLoop ts T e k = Inr (r, n) \<Longrightarrow> e = pollTime ts k \<Longrightarrow>
     k < n
     \<and> getOrder_reply ts (n - 1) = Inr (order r)
     \<and> filled r = (map_option status (order r) = Some FILLED)
     \<and> (\<forall>i. k \<le> i \<and> i < n - 1 \<longrightarrow>
           pollTime ts i < T
           \<and> (\<exists>ord. getOrder_reply ts i = Inr (Some ord) \<and> \<not> isTerminal (status ord)))
     \<and> (pollTime ts (n - 1) < T \<longrightarrow>
           order r = None \<or> map_option (\<lambda>ord. isTerminal (status ord)) (order r) = Some True)"
proof (induction ts T e k arbitrary: r n rule: waitLoop.induct)
  case (1 ts T e k)
  show ?case
  proof (cases "e < T")
    case False
    with "1.prems" show ?thesis
      by (subst (asm) waitLoop.simps) (auto split: sum.splits option.splits)
  next
    case lt: True
    show ?thesis
    proof (cases "getOrder_reply ts k")
      case (Inl err)
      with lt "1.prems" show ?thesis
        by (subst (asm) waitLoop.simps) simp
    next
      case (Inr reply)
      show ?thesis
      proof (cases reply)
        case None
        with lt Inr "1.prems" show ?thesis
          by (subst (asm) waitLoop.simps) auto
      next
        case (Some ord)
        show ?thesis
        proof (cases "isTerminal (status ord)")
          case True
          with lt Inr Some "1.prems" show ?thesis
            by (subst (asm) waitLoop.simps) (auto simp: isTerminal_def split: if_splits)
        next
          case False
          then have nt: "status ord \<noteq> FILLED" 
            "\<not> (status ord = CANCELLED \<or> status ord = EXPIRED \<or> status ord = REJECTED)"
            by (auto simp: isTerminal_def)
          from "1.prems"(1) lt Inr Some nt
          have rec: "waitLoop ts T (e + getOrder_ms ts k + 2000) (Suc k) = Inr (r, n)"
            by (subst (asm) waitLoop.simps) simp
          have e': "e + getOrder_ms ts k + 2000 = pollTime ts (Suc k)"
            using "1.prems"(2) by simp
          from "1.IH" [OF lt Inr Some nt rec e'] 
          have IH: "Suc k < n" "getOrder_reply ts (n - 1) = Inr (order r)"
            "filled r = (map_option status (order r) = Some FILLED)"
            "\<forall>i. Suc k \<le> i \<and> i < n - 1 \<longrightarrow>
               pollTime ts i < T
               \<and> (\<exists>ord. getOrder_reply ts i = Inr (Some ord) \<and> \<not> isTerminal (status ord))"
            "pollTime ts (n - 1) < T \<longrightarrow>
               order r = None \<or> map_option (\<lambda>ord. isTerminal (status ord)) (order r) = Some True"
            by blast+
          have "\<forall>i. k \<le> i \<and> i < n - 1 \<longrightarrow>
               pollTime ts i < T
               \<and> (\<exists>ord. getOrder_reply ts i = Inr (Some ord) \<and> \<not> isTerminal (status ord))"
          proof (intro allI impI)
            fix i assume i: "k \<le> i \<and> i < n - 1"
            show "pollTime ts i < T
               \<and> (\<exists>ord. getOrder_reply ts i = Inr (Some ord) \<and> \<not> isTerminal (status ord))"
            proof (cases "i = k")
              case True
              with lt "1.prems"(2) Inr Some False show ?thesis by simp
            next
              case False
              with i IH(4) show ?thesis by simp
            qed
          qed
          with IH show ?thesis by simp
        qed
      qed
    qed
  qed
qed

lemma waitLoop_returns:
  "(\<And>i. \<not> isl (getOrder_reply ts i)) \<Longrightarrow> \<not> isl (waitLoop ts T e k)"
proof (induction ts T e k rule: waitLoop.induct)
  case (1 ts T e k)
  from "1.prems" obtain reply where reply: "getOrder_reply ts k = Inr reply"
    by (cases "getOrder_reply ts k") (auto simp: isl_def)
  show ?case
  proof (cases "e < T")
    case False
    with reply show ?thesis by (subst waitLoop.simps) simp
  next
    case lt: True
    show ?thesis
    proof (cases reply)
      case None
      with lt reply show ?thesis by (subst waitLoop.simps) simp
    next
      case (Some ord)
      show ?thesis
      proof (cases "status ord = FILLED \<or> status ord = CANCELLED \<or> status ord = EXPIRED
                      \<or> status ord = REJECTED")
        case True
        with lt reply Some show ?thesis by (subst waitLoop.simps) auto
      next
        case False
        then have nt: "status ord \<noteq> FILLED"
          "\<not> (status ord = CANCELLED \<or> status ord = EXPIRED \<or> status ord = REJECTED)"
          by auto
        from "1.IH" [OF lt reply Some nt "1.prems"]
        show ?thesis using lt reply Some nt by (subst waitLoop.simps) simp
      qed
    qed
  qed
qed

lemma waitLoop_cancel_indep:
  "waitLoop (ts\<lparr>cancelOrder_reply := c\<rparr>) T e k = waitLoop ts T e k"
proof (induction ts T e k rule: waitLoop.induct)
  case (1 ts T e k)
  show ?case
  proof (cases "e < T")
    case False
    then show ?thesis
      by (subst waitLoop.simps, subst (2) waitLoop.simps) simp
  next
    case lt: True
    show ?thesis
    proof (cases "getOrder_reply ts k")
      case (Inl err)
      with lt show ?thesis
        by (subst waitLoop.simps, subst (2) waitLoop.simps) simp
    next
      case (Inr reply)
      show ?thesis
      proof (cases reply)
        case None
        with lt Inr show ?thesis
          by (subst waitLoop.simps, subst (2) waitLoop.simps) simp
      next
        case (Some ord)
        show ?thesis
        proof (cases "status ord = FILLED \<or> status ord = CANCELLED \<or> status ord = EXPIRED
                      \<or> status ord = REJECTED")
          case True
          with lt Inr Some show ?thesis
            by (subst waitLoop.simps, subst (2) waitLoop.simps) auto
        next
          case False
          then have nt: "status ord \<noteq> FILLED"
            "\<not> (status ord = CANCELLED \<or> status ord = EXPIRED \<or> status ord = REJECTED)"
            by auto
          from "1.IH" [OF lt Inr Some nt]
          show ?thesis using lt Inr Some nt
            by (subst waitLoop.simps, subst (2) waitLoop.simps) simp
        qed
      qed
    qed
  qed
qed

lemma stuck_default:
  "waitForFill stuckService None = Inr (\<lparr>filled = False, order = Some partialOrder\<rparr>, 9)"
  by (simp add: waitForFill_def waitLoop.simps stuckService_def partialOrder_def)

lemma stuck_market:
  "waitForFill stuckService (Some 10000)
     = Inr (\<lparr>filled = False, order = Some partialOrder\<rparr>, 6)"
  by (simp add: waitForFill_def waitLoop.simps stuckService_def partialOrder_def)

lemma filling_default:
  "waitForFill fillingService None = Inr (\<lparr>filled = True, order = Some filledOrder\<rparr>, 3)"
  by (simp add: waitForFill_def waitLoop.simps fillingService_def partialOrder_def
        filledOrder_def)

text \<open>
  Claim C6. \<^verbatim>\<open>waitForFill\<close> waits 15 seconds by default (the limit steps) and 10 seconds
  where the market step asks for them, and returns whenever \<^verbatim>\<open>getOrder\<close> does not
  reject. Successive polls are one \<^verbatim>\<open>getOrder\<close> call and a sleep of 2000 ms apart.
  When it returns after \<open>n\<close> calls, the order returned is the reply to the last call and
  \<open>filled\<close> is true exactly when that order's status is FILLED; every earlier poll was
  made before the timeout and saw an order in a state that is not terminal (so a
  PARTIALLY_FILLED order never ends the loop), and a last poll made before the timeout
  saw no order or a terminal state (FILLED, CANCELLED, EXPIRED or REJECTED). An order that
  stays partially filled is polled 8 times and checked once more after 15 seconds
  (5 times and once more after 10 seconds); an order filled at the third poll is returned
  then.
\<close>

theorem waitForFill_confirmation:
  "waitForFill ts None = waitForFill ts (Some 15000)
   \<and> pollTime ts (Suc k) = pollTime ts k + getOrder_ms ts k + 2000
   \<and> ((\<forall>i. \<not> isl (getOrder_reply ts i)) \<longrightarrow> \<not> isl (waitForFill ts timeoutMs))
   \<and> (waitForFill ts timeoutMs = Inr (r, n) \<longrightarrow>
        0 < n
        \<and> getOrder_reply ts (n - 1) = Inr (order r)
        \<and> filled r = (map_option status (order r) = Some FILLED)
        \<and> (\<forall>i < n - 1.
              pollTime ts i < (case timeoutMs of None \<Rightarrow> 15000 | Some t \<Rightarrow> t)
              \<and> (\<exists>ord. getOrder_reply ts i = Inr (Some ord) \<and> \<not> isTerminal (status ord)))
        \<and> (pollTime ts (n - 1) < (case timeoutMs of None \<Rightarrow> 15000 | Some t \<Rightarrow> t) \<longrightarrow>
              order r = None
              \<or> map_option (\<lambda>ord. isTerminal (status ord)) (order r) = Some True))
   \<and> waitForFill stuckService None
        = Inr (\<lparr>filled = False, order = Some partialOrder\<rparr>, 9)
   \<and> waitForFill stuckService (Some 10000)
        = Inr (\<lparr>filled = False, order = Some partialOrder\<rparr>, 6)
   \<and> waitForFill fillingService None
        = Inr (\<lparr>filled = True, order = Some filledOrder\<rparr>, 3)"
proof -
  have a: "waitForFill ts None = waitForFill ts (Some 15000)"
    by (simp add: waitForFill_def)
  have b: "(\<forall>i. \<not> isl (getOrder_reply ts i)) \<longrightarrow> \<not> isl (waitForFill ts timeoutMs)"
    using waitLoop_returns [of ts] by (simp add: waitForFill_def)
  have c: "waitForFill ts timeoutMs = Inr (r, n) \<longrightarrow>
        0 < n
        \<and> getOrder_reply ts (n - 1) = Inr (order r)
        \<and> filled r = (map_option status (order r) = Some FILLED)
        \<and> (\<forall>i < n - 1.
              pollTime ts i < (case timeoutMs of None \<Rightarrow> 15000 | Some t \<Rightarrow> t)
              \<and> (\<exists>ord. getOrder_reply ts i = Inr (Some ord) \<and> \<not> isTerminal (status ord)))
        \<and> (pollTime ts (n - 1) < (case timeoutMs of None \<Rightarrow> 15000 | Some t \<Rightarrow> t) \<longrightarrow>
              order r = None
              \<or> map_option (\<lambda>ord. isTerminal (status ord)) (order r) = Some True)"
  proof
    assume "waitForFill ts timeoutMs = Inr (r, n)"
    then have "waitLoop ts (case timeoutMs of None \<Rightarrow> 15000 | Some t \<Rightarrow> t) 0 0 = Inr (r, n)"
      by (simp add: waitForFill_def)
    from waitLoop_props [OF this] show "0 < n
        \<and> getOrder_reply ts (n - 1) = Inr (order r)
        \<and> filled r = (map_option status (order r) = Some FILLED)
        \<and> (\<forall>i < n - 1.
              pollTime ts i < (case timeoutMs of None \<Rightarrow> 15000 | Some t \<Rightarrow> t)
              \<and> (\<exists>ord. getOrder_reply ts i = Inr (Some ord) \<and> \<not> isTerminal (status ord)))
        \<and> (pollTime ts (n - 1) < (case timeoutMs of None \<Rightarrow> 15000 | Some t \<Rightarrow> t) \<longrightarrow>
              order r = None
              \<or> map_option (\<lambda>ord. isTerminal (status ord)) (order r) = Some True)"
      by simp
  qed
  from a b c stuck_default stuck_market filling_default show ?thesis by simp
qed

theorem waitForFill_confirmation_witness:
  "getOrder_reply fillingService 2 = Inr (Some filledOrder)
   \<and> pollTime fillingService 1 < 15000
   \<and> (\<exists>ord. getOrder_reply fillingService 1 = Inr (Some ord) \<and> \<not> isTerminal (status ord))
   \<and> \<not> isl (waitForFill fillingService None)"
proof -
  note t = waitForFill_confirmation [of fillingService 0 None
      "\<lparr>filled = True, order = Some filledOrder\<rparr>" 3]
  have h: "\<forall>i. \<not> isl (getOrder_reply fillingService i)"
    by (simp add: fillingService_def)
  from t have run: "waitForFill fillingService None
      = Inr (\<lparr>filled = True, order = Some filledOrder\<rparr>, 3)"
    by blast
  from t run have "getOrder_reply fillingService (3 - 1)
      = Inr (order \<lparr>filled = True, order = Some filledOrder\<rparr>)"
    by blast
  then have c1: "getOrder_reply fillingService 2 = Inr (Some filledOrder)" by simp
  from t run have "\<forall>i < 3 - 1. pollTime fillingService i
        < (case None of None \<Rightarrow> 15000 | Some t \<Rightarrow> t)
      \<and> (\<exists>ord. getOrder_reply fillingService i = Inr (Some ord) \<and> \<not> isTerminal (status ord))"
    by blast
  then have "1 < (3::nat) - 1 \<longrightarrow> pollTime fillingService 1
        < (case None of None \<Rightarrow> 15000 | Some t \<Rightarrow> t)
      \<and> (\<exists>ord. getOrder_reply fillingService 1 = Inr (Some ord) \<and> \<not> isTerminal (status ord))"
    by blast
  then have c2: "pollTime fillingService 1 < 15000
      \<and> (\<exists>ord. getOrder_reply fillingService 1 = Inr (Some ord) \<and> \<not> isTerminal (status ord))"
    by simp
  from t h have c3: "\<not> isl (waitForFill fillingService None)" by blast
  from c1 c2 c3 show ?thesis by blast
qed

subsection \<open>Failed attempts and the holdings\<close>

lemma onTrade_unchanged:
  "\<not> success result \<Longrightarrow> onTradeHoldings holdings trade result = holdings"
  by (simp add: onTradeHoldings_def Let_def)

lemma onTrade_changed:
  "onTradeHoldings holdings trade result \<noteq> holdings \<Longrightarrow>
     success result \<and> truthy (tokenId trade)"
  by (auto simp: onTradeHoldings_def Let_def split: if_splits)

lemma waitForFill_cancel_indep:
  "waitForFill (ts\<lparr>cancelOrder_reply := c\<rparr>) t = waitForFill ts t"
  by (simp add: waitForFill_def waitLoop_cancel_indep)

lemma limitSellStep_cancel_indep:
  "limitSellStep (ts\<lparr>cancelOrder_reply := c\<rparr>) = limitSellStep ts"
  by (auto simp: limitSellStep_def waitForFill_cancel_indep split: sum.splits prod.splits)

lemma limitSellStep_not_filled:
  "createLimitOrder_reply ts = Inr sellResult \<Longrightarrow> success_o sellResult \<Longrightarrow>
   waitForFill ts None = Inr (fillResult, n) \<Longrightarrow> \<not> filled fillResult \<Longrightarrow>
   limitSellStep ts = Inr (\<lparr>step = ''Limit SELL (fill)'', success_s = False,
                             detail = NotFilled (map_option status (order fillResult))\<rparr>, 1)"
  by (simp add: limitSellStep_def split: sum.splits)

lemma limitSellStep_refused:
  "createLimitOrder_reply ts = Inr sellResult \<Longrightarrow> \<not> success_o sellResult \<Longrightarrow>
   limitSellStep ts = Inr (\<lparr>step = ''Limit SELL (fill)'', success_s = False,
                             detail = Failed (orElse (errorMsg sellResult) ''failed'')\<rparr>, 0)"
  by (simp add: limitSellStep_def)

lemma marketBuyStep_not_filled:
  "createMarketOrder_reply ts = Inr res \<Longrightarrow> success_o res \<Longrightarrow> truthy (orderId res) \<Longrightarrow>
   waitForFill ts (Some 10000) = Inr (fillResult, n) \<Longrightarrow> \<not> filled fillResult \<Longrightarrow>
   marketBuyStep ts = Inr (\<lparr>step = ''Market BUY (fill)'', success_s = True,
                     detail = AcceptedStatus (map_option status (order fillResult))\<rparr>, 0)"
  by (simp add: marketBuyStep_def)

lemma stuck_limit:
  "limitSellStep stuckService = Inr (\<lparr>step = ''Limit SELL (fill)'', success_s = False,
       detail = NotFilled (Some PARTIALLY_FILLED)\<rparr>, 1)"
proof -
  have "createLimitOrder_reply stuckService = Inr placed" "success_o placed"
    by (simp_all add: stuckService_def placed_def)
  from limitSellStep_not_filled [OF this stuck_default] show ?thesis
    by (simp add: partialOrder_def)
qed

lemma refusing_limit:
  "limitSellStep refusingService = Inr (\<lparr>step = ''Limit SELL (fill)'', success_s = False,
       detail = Failed ''not enough balance''\<rparr>, 0)"
  by (simp add: limitSellStep_def refusingService_def refused_def orElse_def truthy_def)

lemma stuck_marketStep:
  "marketBuyStep stuckService = Inr (\<lparr>step = ''Market BUY (fill)'', success_s = True,
       detail = AcceptedStatus (Some PARTIALLY_FILLED)\<rparr>, 0)"
proof -
  have "createMarketOrder_reply stuckService = Inr placed" "success_o placed"
    "truthy (orderId placed)"
    by (simp_all add: stuckService_def placed_def truthy_def)
  from marketBuyStep_not_filled [OF this stuck_market] show ?thesis
    by (simp add: partialOrder_def)
qed

lemma holdings_example:
  "onTradeHoldings exampleHoldings sellX failedResult = exampleHoldings
   \<and> getPositionSharesForToken (onTradeHoldings exampleHoldings sellX okResult) ''tokenX'' = 20"
  by (simp add: onTradeHoldings_def exampleHoldings_def sellX_def failedResult_def okResult_def
        getPositionSharesForToken_def truthy_def Let_def)

text \<open>
  The claim that every attempt that is not filled gets a cancel and a result with
  \<open>success = false\<close> fails on two paths of the script: when the submission of the limit
  order is refused no cancel is sent (there is no order), and the market step records an
  order that is still partially filled at its timeout as accepted, without a cancel.
\<close>

theorem nonfill_cancel_counterexample:
  "limitSellStep refusingService
     = Inr (\<lparr>step = ''Limit SELL (fill)'', success_s = False,
             detail = Failed ''not enough balance''\<rparr>, 0)
   \<and> marketBuyStep stuckService
     = Inr (\<lparr>step = ''Market BUY (fill)'', success_s = True,
             detail = AcceptedStatus (Some PARTIALLY_FILLED)\<rparr>, 0)"
  using refusing_limit stuck_marketStep by simp

text \<open>
  Claim C7, amended. A trade result with \<open>success = false\<close> leaves the holdings exactly as
  they were: \<^verbatim>\<open>onTrade\<close> changes them only for a result with \<open>success = true\<close> and a
  token id. A limit order that was placed and is not filled when \<^verbatim>\<open>waitForFill\<close> returns
  gets exactly one cancel, whose own failure changes nothing, and the step is recorded
  with \<open>success = false\<close>; a refused submission is recorded with \<open>success = false\<close> and
  no cancel. In the scenario of the order that stays partially filled the step sends one
  cancel, survives its failure and records \<open>success = false\<close>.
\<close>

theorem ledger_unchanged_on_failure:
  "(\<not> success result \<longrightarrow> onTradeHoldings holdings trade result = holdings)
   \<and> (onTradeHoldings holdings trade result \<noteq> holdings \<longrightarrow>
        success result \<and> truthy (tokenId trade))
   \<and> (createLimitOrder_reply ts = Inr sellResult \<and> success_o sellResult
        \<and> waitForFill ts None = Inr (fillResult, n) \<and> \<not> filled fillResult \<longrightarrow>
        limitSellStep ts =
          Inr (\<lparr>step = ''Limit SELL (fill)'', success_s = False,
                detail = NotFilled (map_option status (order fillResult))\<rparr>, 1))
   \<and> limitSellStep (ts\<lparr>cancelOrder_reply := c\<rparr>) = limitSellStep ts
   \<and> (createLimitOrder_reply ts = Inr sellResult \<and> \<not> success_o sellResult \<longrightarrow>
        limitSellStep ts =
          Inr (\<lparr>step = ''Limit SELL (fill)'', success_s = False,
                detail = Failed (orElse (errorMsg sellResult) ''failed'')\<rparr>, 0))
   \<and> limitSellStep stuckService
        = Inr (\<lparr>step = ''Limit SELL (fill)'', success_s = False,
                detail = NotFilled (Some PARTIALLY_FILLED)\<rparr>, 1)
   \<and> onTradeHoldings exampleHoldings sellX failedResult = exampleHoldings"
proof -
  have a: "\<not> success result \<longrightarrow> onTradeHoldings holdings trade result = holdings"
    by (simp add: onTrade_unchanged)
  have b: "onTradeHoldings holdings trade result \<noteq> holdings \<longrightarrow>
        success result \<and> truthy (tokenId trade)"
    using onTrade_changed by blast
  have c: "createLimitOrder_reply ts = Inr sellResult \<and> success_o sellResult
        \<and> waitForFill ts None = Inr (fillResult, n) \<and> \<not> filled fillResult \<longrightarrow>
        limitSellStep ts =
          Inr (\<lparr>step = ''Limit SELL (fill)'', success_s = False,
                detail = NotFilled (map_option status (order fillResult))\<rparr>, 1)"
    using limitSellStep_not_filled by blast
  have d: "limitSellStep (ts\<lparr>cancelOrder_reply := c\<rparr>) = limitSellStep ts"
    by (rule limitSellStep_cancel_indep)
  have e: "createLimitOrder_reply ts = Inr sellResult \<and> \<not> success_o sellResult \<longrightarrow>
        limitSellStep ts =
          Inr (\<lparr>step = ''Limit SELL (fill)'', success_s = False,
                detail = Failed (orElse (errorMsg sellResult) ''failed'')\<rparr>, 0)"
    using limitSellStep_refused by blast
  have f: "onTradeHoldings exampleHoldings sellX failedResult = exampleHoldings"
    using holdings_example by blast
  show ?thesis
    by (intro conjI) (rule a b c d e f stuck_limit)+
qed

theorem ledger_unchanged_on_failure_witness:
  "onTradeHoldings exampleHoldings sellX failedResult = exampleHoldings
   \<and> limitSellStep stuckService
        = Inr (\<lparr>step = ''Limit SELL (fill)'', success_s = False,
                detail = NotFilled (Some PARTIALLY_FILLED)\<rparr>, 1)
   \<and> limitSellStep refusingService
        = Inr (\<lparr>step = ''Limit SELL (fill)'', success_s = False,
                detail = Failed ''not enough balance''\<rparr>, 0)"
proof -
  have h1: "\<not> success failedResult" by (simp add: failedResult_def)
  have h2: "createLimitOrder_reply stuckService = Inr placed \<and> success_o placed
      \<and> waitForFill stuckService None
          = Inr (\<lparr>filled = False, order = Some partialOrder\<rparr>, 9)
      \<and> \<not> filled \<lparr>filled = False, order = Some partialOrder\<rparr>"
    using stuck_default by (simp add: stuckService_def placed_def)
  have h3: "createLimitOrder_reply refusingService = Inr refused \<and> \<not> success_o refused"
    by (simp add: refusingService_def refused_def)
  from h1 ledger_unchanged_on_failure [of failedResult exampleHoldings sellX]
  have c1: "onTradeHoldings exampleHoldings sellX failedResult = exampleHoldings"
    by blast
  from h2 ledger_unchanged_on_failure [where ts = stuckService and sellResult = placed
      and fillResult = "\<lparr>filled = False, order = Some partialOrder\<rparr>" and n = 9]
  have "limitSellStep stuckService
      = Inr (\<lparr>step = ''Limit SELL (fill)'', success_s = False,
              detail = NotFilled (map_option status
                (order \<lparr>filled = False, order = Some partialOrder\<rparr>))\<rparr>, 1)"
    by blast
  then have c2: "limitSellStep stuckService
        = Inr (\<lparr>step = ''Limit SELL (fill)'', success_s = False,
                detail = NotFilled (Some PARTIALLY_FILLED)\<rparr>, 1)"
    by (simp add: partialOrder_def)
  from h3 ledger_unchanged_on_failure [where ts = refusingService and sellResult = refused]
  have "limitSellStep refusingService
      = Inr (\<lparr>step = ''Limit SELL (fill)'', success_s = False,
              detail = Failed (orElse (errorMsg refused) ''failed'')\<rparr>, 0)"
    by blast
  then have c3: "limitSellStep refusingService
        = Inr (\<lparr>step = ''Limit SELL (fill)'', success_s = False,
                detail = Failed ''not enough balance''\<rparr>, 0)"
    by (simp add: refused_def orElse_def truthy_def)
  from c1 c2 c3 show ?thesis by blast
qed

subsection \<open>Relayer service\<close>

lemma executeAndWait_resultFor:
  "resultFor (execute rc transactions) (executeAndWait label rc transactions)"
  by (auto simp: resultFor_def executeAndWait_def notFailed_def obtained_def failure_def
           split: sum.splits option.splits)

lemma executeAndWait_success:
  "success_r (executeAndWait label rc transactions) = notFailed (execute rc transactions)"
  by (auto simp: executeAndWait_def notFailed_def obtained_def failure_def
           split: sum.splits option.splits)

lemma deploySafe_resultFor: "resultFor (deploy rc) (deploySafe rc)"
  by (auto simp: resultFor_def deploySafe_def notFailed_def obtained_def deployFailure_def
           split: sum.splits option.splits)

lemma op_total:
  "approveData eth spender amt = Inr d \<Longrightarrow>
     \<exists>r. approveUsdc eth c rc spender amt = Inr r
        \<and> resultFor (execute rc [\<lparr>to_tx = USDC_CONTRACT c, value_tx = ''0'', data_tx = d\<rparr>]) r"
  "splitData eth c conditionId amount = Inr d \<Longrightarrow>
     \<exists>r. split eth c rc conditionId amount = Inr r
        \<and> resultFor (execute rc [\<lparr>to_tx = CTF_CONTRACT c, value_tx = ''0'', data_tx = d\<rparr>]) r"
  "mergeData eth c conditionId amount = Inr d \<Longrightarrow>
     \<exists>r. merge eth c rc conditionId amount = Inr r
        \<and> resultFor (execute rc [\<lparr>to_tx = CTF_CONTRACT c, value_tx = ''0'', data_tx = d\<rparr>]) r"
  "redeemData eth c conditionId outcome = Inr d \<Longrightarrow>
     \<exists>r. redeem eth c rc conditionId outcome = Inr r
        \<and> resultFor (execute rc [\<lparr>to_tx = CTF_CONTRACT c, value_tx = ''0'', data_tx = d\<rparr>]) r"
  by (simp_all add: approveUsdc_def split_def merge_def redeem_def executeAndWait_resultFor)

lemma op_throws:
  "approveData eth spender amt = Inl e \<Longrightarrow> approveUsdc eth c rc spender amt = Inl e"
  "splitData eth c conditionId amount = Inl e \<Longrightarrow> split eth c rc conditionId amount = Inl e"
  "mergeData eth c conditionId amount = Inl e \<Longrightarrow> merge eth c rc conditionId amount = Inl e"
  "redeemData eth c conditionId outcome = Inl e \<Longrightarrow> redeem eth c rc conditionId outcome = Inl e"
  by (simp_all add: approveUsdc_def split_def merge_def redeem_def)

text \<open>
  The claim that no operation ever propagates an exception fails for the four CTF
  operations, which build their calldata before the \<^verbatim>\<open>try\<close> block: with an amount the
  encoder rejects, \<^verbatim>\<open>split\<close> ends in a rejected promise, whatever the relayer would do.
\<close>

theorem relayer_throw_counterexample:
  "split digitsOnlyEthers polygon confirmingRelay ''0xcond'' ''abc''
     = Inl (Error ''invalid decimal value'')"
  by (simp add: split_def splitData_def digitsOnlyEthers_def isDigit_def)

text \<open>
  Claim C9, amended. \<^verbatim>\<open>deploySafe\<close> and \<^verbatim>\<open>executeBatch\<close> return a result for every
  behaviour of the relay client, and so do \<^verbatim>\<open>approveUsdc\<close>, \<^verbatim>\<open>split\<close>, \<^verbatim>\<open>merge\<close> and
  \<^verbatim>\<open>redeem\<close> once their calldata has been built; an exception of the encoder is the only
  one that propagates. In every returned result a rejection, a missing transaction or a
  FAILED state gives \<open>success = false\<close> with an error message, and \<open>success = true\<close>
  comes only with a transaction whose state is not FAILED, together with its hash; for
  the operations other than \<^verbatim>\<open>deploySafe\<close> that is also sufficient.
\<close>

theorem relayer_results_total:
  "resultFor (deploy rc) (deploySafe rc)
   \<and> resultFor (execute rc transactions) (executeBatch rc transactions)
   \<and> success_r (executeBatch rc transactions) = notFailed (execute rc transactions)
   \<and> (approveData eth spender amt = Inr d \<longrightarrow>
        (\<exists>r. approveUsdc eth c rc spender amt = Inr r
           \<and> resultFor (execute rc [\<lparr>to_tx = USDC_CONTRACT c, value_tx = ''0'',
                                      data_tx = d\<rparr>]) r))
   \<and> (splitData eth c conditionId amount = Inr d \<longrightarrow>
        (\<exists>r. split eth c rc conditionId amount = Inr r
           \<and> resultFor (execute rc [\<lparr>to_tx = CTF_CONTRACT c, value_tx = ''0'',
                                      data_tx = d\<rparr>]) r))
   \<and> (mergeData eth c conditionId amount = Inr d \<longrightarrow>
        (\<exists>r. merge eth c rc conditionId amount = Inr r
           \<and> resultFor (execute rc [\<lparr>to_tx = CTF_CONTRACT c, value_tx = ''0'',
                                      data_tx = d\<rparr>]) r))
   \<and> (redeemData eth c conditionId outcome = Inr d \<longrightarrow>
        (\<exists>r. redeem eth c rc conditionId outcome = Inr r
           \<and> resultFor (execute rc [\<lparr>to_tx = CTF_CONTRACT c, value_tx = ''0'',
                                      data_tx = d\<rparr>]) r))
   \<and> (approveData eth spender amt = Inl e \<longrightarrow> approveUsdc eth c rc spender amt = Inl e)
   \<and> (splitData eth c conditionId amount = Inl e \<longrightarrow>
        split eth c rc conditionId amount = Inl e)
   \<and> (mergeData eth c conditionId amount = Inl e \<longrightarrow>
        merge eth c rc conditionId amount = Inl e)
   \<and> (redeemData eth c conditionId outcome = Inl e \<longrightarrow>
        redeem eth c rc conditionId outcome = Inl e)"
proof -
  have b: "resultFor (execute rc transactions) (executeBatch rc transactions)"
    "success_r (executeBatch rc transactions) = notFailed (execute rc transactions)"
    by (simp_all add: executeBatch_def executeAndWait_resultFor executeAndWait_success)
  show ?thesis
    by (intro conjI impI) (rule deploySafe_resultFor b | erule op_total op_throws)+
qed

theorem relayer_results_total_witness:
  "(\<exists>r. split digitsOnlyEthers polygon failingRelay ''0xcond'' ''100'' = Inr r
        \<and> \<not> success_r r \<and> errorMessage r \<noteq> None)
   \<and> (\<exists>r. split digitsOnlyEthers polygon confirmingRelay ''0xcond'' ''100'' = Inr r)"
proof -
  have d: "splitData digitsOnlyEthers polygon ''0xcond'' ''100'' = Inr ''0xsplitPosition''"
    by (simp add: splitData_def digitsOnlyEthers_def isDigit_def)
  have nf: "\<not> notFailed (execute failingRelay
      [\<lparr>to_tx = CTF_CONTRACT polygon, value_tx = ''0'', data_tx = ''0xsplitPosition''\<rparr>])"
    by (simp add: failingRelay_def notFailed_def obtained_def)
  from d relayer_results_total [where eth = digitsOnlyEthers and c = polygon
      and rc = failingRelay and conditionId = "''0xcond''" and amount = "''100''"
      and d = "''0xsplitPosition''"]
  obtain r where r: "split digitsOnlyEthers polygon failingRelay ''0xcond'' ''100'' = Inr r"
    "resultFor (execute failingRelay
      [\<lparr>to_tx = CTF_CONTRACT polygon, value_tx = ''0'', data_tx = ''0xsplitPosition''\<rparr>]) r"
    by blast
  from r(2) nf have "\<not> success_r r \<and> errorMessage r \<noteq> None"
    by (simp add: resultFor_def)
  with r(1) have c1: "\<exists>r. split digitsOnlyEthers polygon failingRelay ''0xcond'' ''100'' = Inr r
        \<and> \<not> success_r r \<and> errorMessage r \<noteq> None"
    by blast
  from d relayer_results_total [where eth = digitsOnlyEthers and c = polygon
      and rc = confirmingRelay and conditionId = "''0xcond''" and amount = "''100''"
      and d = "''0xsplitPosition''"]
  have c2: "\<exists>r. split digitsOnlyEthers polygon confirmingRelay ''0xcond'' ''100'' = Inr r"
    by blast
  from c1 c2 show ?thesis by blast
qed

subsection \<open>Calldata decoder\<close>

lemma not_upper_lower: "\<not> isUpper (toLowerChar ch)"
proof (cases "isUpper ch")
  case False
  then show ?thesis by (simp add: toLowerChar_def)
next
  case True
  then have "(of_char ch :: nat) + 32 < 256" by (simp add: isUpper_def)
  then have "(of_char (char_of ((of_char ch :: nat) + 32)) :: nat) = of_char ch + 32"
    by (simp add: of_char_of)
  with True show ?thesis by (simp add: toLowerChar_def isUpper_def)
qed

lemma of_toLowerChar:
  "isUpper ch \<Longrightarrow> (of_char (toLowerChar ch) :: nat) = of_char ch + 32"
proof -
  assume u: "isUpper ch"
  then have "(of_char ch :: nat) + 32 < 256" by (simp add: isUpper_def)
  then have "(of_char (char_of ((of_char ch :: nat) + 32)) :: nat) = of_char ch + 32"
    by (simp add: of_char_of)
  with u show ?thesis by (simp add: toLowerChar_def)
qed

lemma lowercased_toLowerCase: "lowercased (toLowerCase s)"
  by (simp add: lowercased_def toLowerCase_def list_all_iff not_upper_lower)

lemma lowerOf_toLowerCase: "lowerOf (toLowerCase raw) raw"
proof -
  have "sameLetters (toLowerCase raw) raw"
    unfolding sameLetters_def toLowerCase_def
  proof (induction raw)
    case Nil
    show ?case by simp
  next
    case (Cons r raw)
    show ?case
    proof (cases "isUpper r")
      case True
      with Cons of_toLowerChar [OF True] show ?thesis by simp
    next
      case False
      with Cons show ?thesis by (simp add: toLowerChar_def)
    qed
  qed
  then show ?thesis by (simp add: lowerOf_def lowercased_toLowerCase)
qed

lemma char_eq_of_char: "(of_char a :: nat) = of_char b \<Longrightarrow> a = b"
  by (metis char_of_char)

lemma lowerOf_unique: "lowerOf s raw \<Longrightarrow> s = toLowerCase raw"
proof -
  assume "lowerOf s raw"
  then have l: "list_all (\<lambda>ch. \<not> isUpper ch) s"
    and r: "list_all2 (\<lambda>ch r. ch = r \<or> (isUpper r \<and> (of_char ch :: nat) = of_char r + 32))
              s raw"
    by (simp_all add: lowerOf_def lowercased_def sameLetters_def)
  from r l show ?thesis
    unfolding toLowerCase_def
  proof (induction rule: list_all2_induct)
    case Nil
    show ?case by simp
  next
    case (Cons ch s r raw)
    from Cons.prems have nu: "\<not> isUpper ch" and rest: "list_all (\<lambda>ch. \<not> isUpper ch) s"
      by simp_all
    have "ch = toLowerChar r"
    proof (cases "isUpper r")
      case True
      with Cons.hyps(1) nu have "(of_char ch :: nat) = of_char r + 32" by auto
      with of_toLowerChar [OF True] show ?thesis by (simp add: char_eq_of_char)
    next
      case False
      with Cons.hyps(1) show ?thesis by (simp add: toLowerChar_def)
    qed
    with Cons.IH [OF rest] show ?case by simp
  qed
qed

lemma of_digitChar: "d < 10 \<Longrightarrow> (of_char (digitChar d) :: nat) = 48 + d"
  by (simp add: digitChar_def of_char_of)

lemma isDigit_digitChar: "d < 10 \<Longrightarrow> isDigit (digitChar d)"
  by (simp add: isDigit_def of_digitChar)

lemma digitChar_of_char: "isDigit ch \<Longrightarrow> digitChar ((of_char ch :: nat) - 48) = ch"
  by (simp add: isDigit_def digitChar_def)

lemma digit_zero: "isDigit ch \<Longrightarrow> ch \<noteq> CHR ''0'' \<Longrightarrow> 0 < (of_char ch :: nat) - 48"
proof -
  assume d: "isDigit ch" and nz: "ch \<noteq> CHR ''0''"
  have "(of_char ch :: nat) \<noteq> 48"
  proof
    assume "(of_char ch :: nat) = 48"
    then have "(of_char ch :: nat) = of_char (CHR ''0'')" by simp
    then have "ch = CHR ''0''" by (rule char_eq_of_char)
    with nz show False by simp
  qed
  with d show ?thesis by (simp add: isDigit_def)
qed

lemma toString_small: "n < 10 \<Longrightarrow> toString n = [digitChar n]"
  by (subst toString.simps) simp

lemma toString_big:
  "\<not> n < 10 \<Longrightarrow> toString n = toString (n div 10) @ [digitChar (n mod 10)]"
  by (subst toString.simps) simp

lemma decimal_toString: "decimal (toString n)"
proof (induction n rule: toString.induct)
  case (1 n)
  show ?case
  proof (cases "n < 10")
    case True
    then show ?thesis by (simp add: toString_small decimal_def isDigit_digitChar)
  next
    case False
    with "1.IH" have "decimal (toString (n div 10))" by simp
    moreover have "isDigit (digitChar (n mod 10))" by (simp add: isDigit_digitChar)
    ultimately show ?thesis using False by (simp add: toString_big decimal_def)
  qed
qed

lemma fromDecimal_snoc:
  "fromDecimal (s @ [ch]) = 10 * fromDecimal s + ((of_char ch :: nat) - 48)"
  by (simp add: fromDecimal_def)

lemma fromDecimal_toString: "fromDecimal (toString n) = n"
proof (induction n rule: toString.induct)
  case (1 n)
  show ?case
  proof (cases "n < 10")
    case True
    then show ?thesis by (simp add: toString_small fromDecimal_def of_digitChar)
  next
    case False
    with "1.IH" have "fromDecimal (toString (n div 10)) = n div 10" by simp
    then show ?thesis using False
      by (simp add: toString_big fromDecimal_snoc of_digitChar)
  qed
qed

lemma toString_no_leading_zero: "0 < n \<Longrightarrow> hd (toString n) \<noteq> CHR ''0''"
proof (induction n rule: toString.induct)
  case (1 n)
  show ?case
  proof (cases "n < 10")
    case True
    have "(of_char (digitChar n) :: nat) = 48 + n" using True by (rule of_digitChar)
    with "1.prems" have "(of_char (digitChar n) :: nat) \<noteq> of_char (CHR ''0'')" by simp
    then have "digitChar n \<noteq> CHR ''0''" by auto
    with True show ?thesis by (simp add: toString_small)
  next
    case False
    then have pos: "0 < n div 10" by simp
    have ne: "toString (n div 10) \<noteq> []"
      using decimal_toString [of "n div 10"] by (simp add: decimal_def)
    from "1.IH" [OF False pos] ne False show ?thesis by (simp add: toString_big)
  qed
qed

lemma rendersNat_toString: "rendersNat (toString n) n"
proof (cases "n < 10")
  case True
  then have "length (toString n) = 1" by (simp add: toString_small)
  then show ?thesis
    by (simp add: rendersNat_def decimal_toString fromDecimal_toString)
next
  case False
  then have "0 < n" by simp
  then show ?thesis
    by (simp add: rendersNat_def decimal_toString fromDecimal_toString
          toString_no_leading_zero)
qed

lemma fromDecimal_pos:
  "s \<noteq> [] \<Longrightarrow> list_all isDigit s \<Longrightarrow> hd s \<noteq> CHR ''0'' \<Longrightarrow> 0 < fromDecimal s"
proof (induction s rule: rev_induct)
  case Nil
  then show ?case by simp
next
  case (snoc ch s)
  show ?case
  proof (cases "s = []")
    case True
    with snoc.prems digit_zero [of ch] show ?thesis by (simp add: fromDecimal_def)
  next
    case False
    with snoc have "0 < fromDecimal s" by simp
    then show ?thesis by (simp add: fromDecimal_snoc)
  qed
qed

lemma toString_fromDecimal:
  "s \<noteq> [] \<Longrightarrow> list_all isDigit s \<Longrightarrow> length s = 1 \<or> hd s \<noteq> CHR ''0'' \<Longrightarrow>
     toString (fromDecimal s) = s"
proof (induction s rule: rev_induct)
  case Nil
  then show ?case by simp
next
  case (snoc ch s)
  from snoc.prems have dch: "isDigit ch" and ds: "list_all isDigit s" by simp_all
  then have small: "(of_char ch :: nat) - 48 < 10" unfolding isDigit_def by linarith
  show ?case
  proof (cases "s = []")
    case True
    with small dch show ?thesis
      by (simp add: fromDecimal_def toString_small digitChar_of_char)
  next
    case False
    with snoc.prems have h: "hd s \<noteq> CHR ''0''" by auto
    from snoc.IH [OF False ds] h have IH: "toString (fromDecimal s) = s" by simp
    from fromDecimal_pos [OF False ds h] have pos: "0 < fromDecimal s" .
    let ?n = "10 * fromDecimal s + ((of_char ch :: nat) - 48)"
    from pos have big: "\<not> ?n < 10" by simp
    have "?n div 10 = fromDecimal s" "?n mod 10 = (of_char ch :: nat) - 48"
      using small by simp_all
    with big IH dch show ?thesis
      by (simp add: fromDecimal_snoc toString_big digitChar_of_char)
  qed
qed

lemma rendersNat_unique: "rendersNat s n \<Longrightarrow> s = toString n"
  using toString_fromDecimal [of s] by (auto simp: rendersNat_def decimal_def)

lemma orderDecodes_decodeOrder: "orderDecodes raw (decodeOrder raw)"
  by (simp add: orderDecodes_def decodeOrder_def lowerOf_toLowerCase rendersNat_toString)

lemma orderDecodes_unique: "orderDecodes raw d \<Longrightarrow> d = decodeOrder raw"
  by (cases d) (simp add: orderDecodes_def decodeOrder_def lowerOf_unique rendersNat_unique)

lemma orders_decode: "list_all2 orderDecodes raws (map decodeOrder raws)"
  by (induction raws) (simp_all add: orderDecodes_decodeOrder)

lemma orders_unique: "list_all2 orderDecodes raws ds \<Longrightarrow> ds = map decodeOrder raws"
  by (induction rule: list_all2_induct) (simp_all add: orderDecodes_unique)

lemma amounts_render: "list_all2 rendersNat (map toString ns) ns"
  by (induction ns) (simp_all add: rendersNat_toString)

lemma amounts_unique: "list_all2 rendersNat ss ns \<Longrightarrow> ss = map toString ns"
  by (induction rule: list_all2_induct) (simp_all add: rendersNat_unique)

lemma matchDecodes_unique:
  "matchDecodes decoded r \<Longrightarrow>
     r = \<lparr>takerOrder = decodeOrder (takerOrder_raw decoded),
          makerOrders = map decodeOrder (makerOrders_raw decoded),
          takerFillAmount = toString (takerFillAmount_raw decoded),
          makerFillAmounts = map toString (makerFillAmounts_raw decoded)\<rparr>"
  by (cases r)
     (simp add: matchDecodes_def orderDecodes_unique orders_unique rendersNat_unique
        amounts_unique)

lemma decode_matchDecodes:
  "startsWith data_t MATCH_ORDERS_SELECTOR \<Longrightarrow> dec data_t = Inr decoded \<Longrightarrow>
     \<exists>r. decodeMatchOrdersCalldata dec data_t = Some r \<and> matchDecodes decoded r"
  by (simp add: decodeMatchOrdersCalldata_def matchDecodes_def orderDecodes_decodeOrder
        orders_decode rendersNat_toString amounts_render)

lemma decode_Some:
  "decodeMatchOrdersCalldata dec data_t = Some r \<Longrightarrow>
     startsWith data_t MATCH_ORDERS_SELECTOR
     \<and> (\<exists>decoded. dec data_t = Inr decoded \<and> matchDecodes decoded r)"
  by (auto simp: decodeMatchOrdersCalldata_def matchDecodes_def orderDecodes_decodeOrder
        orders_decode rendersNat_toString amounts_render split: if_splits sum.splits)

lemma toString_examples:
  "toString 1234 = ''1234''" "toString 5000000 = ''5000000''"
  "toString 10000000 = ''10000000''"
  by (simp_all add: toString.simps digitChar_def char_of_def bit_simps)

lemma toLowerCase_examples:
  "toLowerCase ''0xE3f18aCc'' = ''0xe3f18acc''" "toLowerCase ''0x0000'' = ''0x0000''"
  by (simp_all add: toLowerCase_def toLowerChar_def isUpper_def char_of_def bit_simps)

lemma decode_example: "decodeMatchOrdersCalldata oneCallDecoder ''0x2287e350aa'' =
      Some \<lparr>takerOrder = \<lparr>maker = ''0xe3f18acc'', signer = ''0xe3f18acc'', taker = ''0x0000'',
              tokenId_d = ''1234'', makerAmount = ''5000000'', takerAmount = ''10000000'',
              side_d = 0\<rparr>,
            makerOrders = [\<lparr>maker = ''0xe3f18acc'', signer = ''0xe3f18acc'',
              taker = ''0x0000'', tokenId_d = ''1234'', makerAmount = ''5000000'',
              takerAmount = ''10000000'', side_d = 0\<rparr>],
            takerFillAmount = ''5000000'', makerFillAmounts = [''10000000'']\<rparr>"
  by (simp add: decodeMatchOrdersCalldata_def oneCallDecoder_def startsWith_def
        MATCH_ORDERS_SELECTOR_def rawMatch_def rawTaker_def decodeOrder_def
        toString_examples toLowerCase_examples)

text \<open>
  Claim C10. \<^verbatim>\<open>decodeMatchOrdersCalldata\<close> returns a decoded result or \<^verbatim>\<open>null\<close> for every
  input and every behaviour of the ABI decoder, which it calls inside its \<^verbatim>\<open>try\<close>: the
  result is \<^verbatim>\<open>null\<close> when the input does not start with the selector \<^verbatim>\<open>0x2287e350\<close> and
  when the decoder throws, and only then. A result is the rendering of what the decoder
  returned for this input: it has one maker order and one fill amount for each decoded
  one, in the same order; the maker, signer and taker of every order are the decoded
  addresses in lower case, without any upper-case letter; the token id, the amounts and
  the fill amounts are the decimal numerals of the decoded numbers; the side is the
  decoded number of the enum. These conditions leave no choice: the result is determined
  by the decoded value.
\<close>

theorem decodeMatchOrders_total:
  "(\<not> startsWith data_t MATCH_ORDERS_SELECTOR \<longrightarrow>
      decodeMatchOrdersCalldata dec data_t = None)
   \<and> (isl (dec data_t) \<longrightarrow> decodeMatchOrdersCalldata dec data_t = None)
   \<and> (startsWith data_t MATCH_ORDERS_SELECTOR \<and> dec data_t = Inr decoded \<longrightarrow>
        (\<exists>r. decodeMatchOrdersCalldata dec data_t = Some r \<and> matchDecodes decoded r))
   \<and> (decodeMatchOrdersCalldata dec data_t = Some r \<longrightarrow>
        startsWith data_t MATCH_ORDERS_SELECTOR
        \<and> (\<exists>decoded. dec data_t = Inr decoded \<and> matchDecodes decoded r))
   \<and> (matchDecodes decoded r \<and> matchDecodes decoded r' \<longrightarrow> r = r')
   \<and> (matchDecodes decoded r \<longrightarrow>
        length (makerOrders r) = length (makerOrders_raw decoded)
        \<and> length (makerFillAmounts r) = length (makerFillAmounts_raw decoded))
   \<and> MATCH_ORDERS_SELECTOR = ''0x2287e350''"
proof -
  have a: "\<not> startsWith data_t MATCH_ORDERS_SELECTOR \<longrightarrow>
      decodeMatchOrdersCalldata dec data_t = None"
    by (simp add: decodeMatchOrdersCalldata_def)
  have b: "isl (dec data_t) \<longrightarrow> decodeMatchOrdersCalldata dec data_t = None"
    by (auto simp: decodeMatchOrdersCalldata_def isl_def split: sum.splits)
  have c: "startsWith data_t MATCH_ORDERS_SELECTOR \<and> dec data_t = Inr decoded \<longrightarrow>
        (\<exists>r. decodeMatchOrdersCalldata dec data_t = Some r \<and> matchDecodes decoded r)"
    using decode_matchDecodes by blast
  have d: "decodeMatchOrdersCalldata dec data_t = Some r \<longrightarrow>
        startsWith data_t MATCH_ORDERS_SELECTOR
        \<and> (\<exists>decoded. dec data_t = Inr decoded \<and> matchDecodes decoded r)"
    using decode_Some by blast
  have e: "matchDecodes decoded r \<and> matchDecodes decoded r' \<longrightarrow> r = r'"
  proof (intro impI, elim conjE)
    assume h: "matchDecodes decoded r" and h': "matchDecodes decoded r'"
    show "r = r'"
      by (rule trans [OF matchDecodes_unique [OF h] sym [OF matchDecodes_unique [OF h']]])
  qed
  have f: "matchDecodes decoded r \<longrightarrow>
        length (makerOrders r) = length (makerOrders_raw decoded)
        \<and> length (makerFillAmounts r) = length (makerFillAmounts_raw decoded)"
    by (auto simp: matchDecodes_def dest: list_all2_lengthD)
  show ?thesis
    by (intro conjI) (rule a b c d e f MATCH_ORDERS_SELECTOR_def)+
qed

theorem decodeMatchOrders_total_witness:
  "decodeMatchOrdersCalldata oneCallDecoder ''0X2287E350aa'' = None
   \<and> decodeMatchOrdersCalldata oneCallDecoder ''0x2287e350bb'' = None
   \<and> (\<exists>r. decodeMatchOrdersCalldata oneCallDecoder ''0x2287e350aa'' = Some r
         \<and> matchDecodes rawMatch r)
   \<and> matchDecodes rawMatch
        \<lparr>takerOrder = \<lparr>maker = ''0xe3f18acc'', signer = ''0xe3f18acc'', taker = ''0x0000'',
              tokenId_d = ''1234'', makerAmount = ''5000000'', takerAmount = ''10000000'',
              side_d = 0\<rparr>,
         makerOrders = [\<lparr>maker = ''0xe3f18acc'', signer = ''0xe3f18acc'',
              taker = ''0x0000'', tokenId_d = ''1234'', makerAmount = ''5000000'',
              takerAmount = ''10000000'', side_d = 0\<rparr>],
         takerFillAmount = ''5000000'', makerFillAmounts = [''10000000'']\<rparr>"
proof -
  have h1: "\<not> startsWith ''0X2287E350aa'' MATCH_ORDERS_SELECTOR"
    by (simp add: startsWith_def MATCH_ORDERS_SELECTOR_def)
  have h2: "isl (oneCallDecoder ''0x2287e350bb'')"
    by (simp add: oneCallDecoder_def)
  have h3: "startsWith ''0x2287e350aa'' MATCH_ORDERS_SELECTOR
      \<and> oneCallDecoder ''0x2287e350aa'' = Inr rawMatch"
    by (simp add: startsWith_def MATCH_ORDERS_SELECTOR_def oneCallDecoder_def)
  from h1 decodeMatchOrders_total [of "''0X2287E350aa''" oneCallDecoder]
  have c1: "decodeMatchOrdersCalldata oneCallDecoder ''0X2287E350aa'' = None" by blast
  from h2 decodeMatchOrders_total [of "''0x2287e350bb''" oneCallDecoder]
  have c2: "decodeMatchOrdersCalldata oneCallDecoder ''0x2287e350bb'' = None" by blast
  from h3 decodeMatchOrders_total [of "''0x2287e350aa''" oneCallDecoder rawMatch]
  have c3: "\<exists>r. decodeMatchOrdersCalldata oneCallDecoder ''0x2287e350aa'' = Some r
         \<and> matchDecodes rawMatch r"
    by blast
  with decode_example have c4: "matchDecodes rawMatch
        \<lparr>takerOrder = \<lparr>maker = ''0xe3f18acc'', signer = ''0xe3f18acc'', taker = ''0x0000'',
              tokenId_d = ''1234'', makerAmount = ''5000000'', takerAmount = ''10000000'',
              side_d = 0\<rparr>,
         makerOrders = [\<lparr>maker = ''0xe3f18acc'', signer = ''0xe3f18acc'',
              taker = ''0x0000'', tokenId_d = ''1234'', makerAmount = ''5000000'',
              takerAmount = ''10000000'', side_d = 0\<rparr>],
         takerFillAmount = ''5000000'', makerFillAmounts = [''10000000'']\<rparr>"
    by auto
  from c1 c2 c3 c4 show ?thesis by blast
qed

subsection \<open>Risk gate\<close>

lemma riskGate_sell_clamped:
  "side_s trade = SELL \<Longrightarrow> riskGate opts held trade = Accept spec \<Longrightarrow>
     size_o spec \<le> held (asset_s trade)
     \<and> size_o spec = min (case maxSizePerTrade opts of None \<Rightarrow> size_s trade * sizeScale opts
                           | Some m \<Rightarrow> min (size_s trade * sizeScale opts) m)
                         (held (asset_s trade))
     \<and> side_o spec = SELL \<and> asset_o spec = asset_s trade"
  by (auto simp: riskGate_def Let_def split: if_splits)

lemma riskGate_sell_nothing_held:
  "side_s trade = SELL \<Longrightarrow> held (asset_s trade) = 0 \<Longrightarrow>
     applyRiskGate opts held st trade =
       \<lparr>stats = st\<lparr>tradesSkipped := tradesSkipped st + 1\<rparr>, submitted = None,
         attempted = False\<rparr>"
  by (simp add: applyRiskGate_def riskGate_def Let_def)

text \<open>
  Claim C2. For a SELL source trade the risk gate either skips or accepts an order whose
  size is the scaled and capped copy size clamped to the shares held for the asset, so it
  never exceeds them; when no shares are held the trade is a skip: \<open>tradesSkipped\<close> grows
  by one, no other counter moves, nothing is submitted and the result is not marked as
  attempted. With the ledger of the script as the source of held shares, an asset that is
  not in the holdings counts as zero shares.
\<close>

theorem sell_clamped_to_holdings:
  "side_s trade = SELL \<longrightarrow>
     (riskGate opts held trade = Accept spec \<longrightarrow>
        size_o spec \<le> held (asset_s trade)
        \<and> size_o spec =
            min (case maxSizePerTrade opts of None \<Rightarrow> size_s trade * sizeScale opts
                 | Some m \<Rightarrow> min (size_s trade * sizeScale opts) m)
                (held (asset_s trade)))
     \<and> (held (asset_s trade) = 0 \<longrightarrow>
          applyRiskGate opts held st trade =
            \<lparr>stats = st\<lparr>tradesSkipped := tradesSkipped st + 1\<rparr>, submitted = None,
              attempted = False\<rparr>)
     \<and> (holdings (asset_s trade) = None \<longrightarrow>
          applyRiskGate opts (getPositionSharesForToken holdings) st trade =
            \<lparr>stats = st\<lparr>tradesSkipped := tradesSkipped st + 1\<rparr>, submitted = None,
              attempted = False\<rparr>)"
proof
  assume s: "side_s trade = SELL"
  have "holdings (asset_s trade) = None \<longrightarrow>
      getPositionSharesForToken holdings (asset_s trade) = 0"
    by (simp add: getPositionSharesForToken_def)
  then show "(riskGate opts held trade = Accept spec \<longrightarrow>
        size_o spec \<le> held (asset_s trade)
        \<and> size_o spec =
            min (case maxSizePerTrade opts of None \<Rightarrow> size_s trade * sizeScale opts
                 | Some m \<Rightarrow> min (size_s trade * sizeScale opts) m)
                (held (asset_s trade)))
     \<and> (held (asset_s trade) = 0 \<longrightarrow>
          applyRiskGate opts held st trade =
            \<lparr>stats = st\<lparr>tradesSkipped := tradesSkipped st + 1\<rparr>, submitted = None,
              attempted = False\<rparr>)
     \<and> (holdings (asset_s trade) = None \<longrightarrow>
          applyRiskGate opts (getPositionSharesForToken holdings) st trade =
            \<lparr>stats = st\<lparr>tradesSkipped := tradesSkipped st + 1\<rparr>, submitted = None,
              attempted = False\<rparr>)"
    using riskGate_sell_clamped [OF s, of opts held spec]
      riskGate_sell_nothing_held [OF s, of held opts st]
      riskGate_sell_nothing_held [OF s, of "getPositionSharesForToken holdings" opts st]
    by blast
qed

theorem sell_clamped_to_holdings_witness:
  "applyRiskGate scriptOptions (getPositionSharesForToken Map.empty) zeroStats sourceSell
     = \<lparr>stats = \<lparr>tradesDetected = 0, tradesExecuted = 0, tradesSkipped = 1,
                 tradesFailed = 0\<rparr>,
        submitted = None, attempted = False\<rparr>
   \<and> (30 :: real) \<le> getPositionSharesForToken exampleHoldings ''tokenX''"
proof -
  have s: "side_s sourceSell = SELL" by (simp add: sourceSell_def)
  have g: "riskGate scriptOptions (getPositionSharesForToken exampleHoldings) sourceSell
      = Accept \<lparr>asset_o = ''tokenX'', side_o = SELL, size_o = 30,
                worstAcceptablePrice = 19 / 50\<rparr>"
    by (simp add: riskGate_def scriptOptions_def sourceSell_def exampleHoldings_def
          getPositionSharesForToken_def Let_def)
  have e: "Map.empty (asset_s sourceSell) = (None :: Holding option)" by simp
  from s e sell_clamped_to_holdings [of sourceSell scriptOptions _ _ zeroStats Map.empty]
  have "applyRiskGate scriptOptions (getPositionSharesForToken Map.empty) zeroStats sourceSell
     = \<lparr>stats = zeroStats\<lparr>tradesSkipped := tradesSkipped zeroStats + 1\<rparr>, submitted = None,
        attempted = False\<rparr>"
    by blast
  then have c1: "applyRiskGate scriptOptions (getPositionSharesForToken Map.empty) zeroStats
      sourceSell
     = \<lparr>stats = \<lparr>tradesDetected = 0, tradesExecuted = 0, tradesSkipped = 1,
                 tradesFailed = 0\<rparr>,
        submitted = None, attempted = False\<rparr>"
    by (simp add: zeroStats_def)
  from s g sell_clamped_to_holdings [of sourceSell scriptOptions
      "getPositionSharesForToken exampleHoldings"
      "\<lparr>asset_o = ''tokenX'', side_o = SELL, size_o = 30, worstAcceptablePrice = 19 / 50\<rparr>"]
  have "size_o \<lparr>asset_o = ''tokenX'', side_o = SELL, size_o = 30,
                worstAcceptablePrice = 19 / 50\<rparr>
      \<le> getPositionSharesForToken exampleHoldings (asset_s sourceSell)"
    by blast
  then have c2: "(30 :: real) \<le> getPositionSharesForToken exampleHoldings ''tokenX''"
    by (simp add: sourceSell_def)
  from c1 c2 show ?thesis by blast
qed

end
